theory Spec2Isabelle
  imports Complex_Main
begin

section \<open>The network troubleshooter \<open>ca/ca.py\<close>\<close>

text \<open>
  The script talks to the outside world through library calls only:
  \<open>socket.inet_aton\<close>, \<open>socket.inet_pton\<close>, \<open>socket.gethostbyname\<close>, scapy's \<open>sr1\<close>,
  \<open>dns.resolver.Resolver\<close>, \<open>requests.get\<close> and a UDP socket. They are the fields of the
  record \<open>env\<close>. Every function of the script is a function of the environment, its
  arguments and the history of the run so far (a list of events, oldest first), and
  returns its result together with the extended history. The history holds every line
  printed, every library call that performs input or output, and every call of
  \<open>scapy_ping_once\<close>. A library call that performs input or output is answered from the
  history before it, so that the same call may be answered differently when repeated.

  An exception is a value: a function that may raise returns \<open>exn + 'a\<close>, with \<open>Inl\<close> the
  exception raised. Only subclasses of Python's \<open>Exception\<close> are modelled; an interrupt
  terminates the process.
\<close>

subsection \<open>Exceptions and strings\<close>

datatype exn = PermissionError string | OSError string | OtherException string

text \<open>\<open>isinstance(e, OSError)\<close>: \<open>PermissionError\<close> is a subclass of \<open>OSError\<close>.\<close>

fun is_OSError :: "exn \<Rightarrow> bool" where
  "is_OSError (PermissionError m) = True"
| "is_OSError (OSError m) = True"
| "is_OSError (OtherException m) = False"

text \<open>\<open>str(e)\<close>: the message the exception carries.\<close>

fun str_exn :: "exn \<Rightarrow> string" where
  "str_exn (PermissionError m) = m"
| "str_exn (OSError m) = m"
| "str_exn (OtherException m) = m"

text \<open>Python's \<open>sub in s\<close> on strings.\<close>

fun str_contains :: "string \<Rightarrow> string \<Rightarrow> bool" where
  "str_contains sub [] = (sub = [])"
| "str_contains sub (c # cs) = (take (length sub) (c # cs) = sub \<or> str_contains sub cs)"

text \<open>
  \<open>str.strip()\<close>. A string is a list of characters with code points below 256; the white
  space of Python among them is U+0009 to U+000D, U+001C to U+001F, U+0020, U+0085 and
  U+00A0.
\<close>

definition isspace :: "char \<Rightarrow> bool" where
  "isspace c = (c \<in> set [CHR 0x09, CHR 0x0A, CHR 0x0B, CHR 0x0C, CHR 0x0D,
                          CHR 0x1C, CHR 0x1D, CHR 0x1E, CHR 0x1F, CHR 0x20,
                          CHR 0x85, CHR 0xA0])"

definition strip :: "string \<Rightarrow> string" where
  "strip s = rev (dropWhile isspace (rev (dropWhile isspace s)))"

text \<open>\<open>sep.join(xs)\<close>.\<close>

fun join :: "string \<Rightarrow> string list \<Rightarrow> string" where
  "join sep [] = []"
| "join sep [x] = x"
| "join sep (x # y # ys) = x @ sep @ join sep (y # ys)"

subsection \<open>Packets, HTTP responses, events\<close>

text \<open>
  The two packets the script builds: \<open>IP(dst=ip) / ICMP()\<close> (an ICMP echo request, type 8)
  and \<open>IPv6(dst=ip) / ICMPv6EchoRequest()\<close>.
\<close>

datatype packet = IP_ICMP string | IPv6_ICMPv6EchoRequest string

text \<open>An answer of \<open>sr1\<close> is a packet, read by the script through its layers only.\<close>

datatype layer = L_IP | L_IPv6 | L_ICMP int | L_ICMPv6EchoReply | L_Other string

type_synonym answer = "layer list"

fun is_ICMP :: "layer \<Rightarrow> bool" where
  "is_ICMP (L_ICMP ty) = True"
| "is_ICMP l = False"

text \<open>\<open>ans.haslayer(ICMP)\<close>, \<open>ans.haslayer(ICMPv6EchoReply)\<close>, \<open>ans.getlayer(ICMP).type\<close>.\<close>

definition haslayer_ICMP :: "answer \<Rightarrow> bool" where
  "haslayer_ICMP ans = list_ex is_ICMP ans"

definition haslayer_ICMPv6EchoReply :: "answer \<Rightarrow> bool" where
  "haslayer_ICMPv6EchoReply ans = list_ex (\<lambda>l. l = L_ICMPv6EchoReply) ans"

definition getlayer_ICMP_type :: "answer \<Rightarrow> int option" where
  "getlayer_ICMP_type ans =
     (case find is_ICMP ans of Some (L_ICMP ty) \<Rightarrow> Some ty | _ \<Rightarrow> None)"

text \<open>
  What the script reads of a decoded JSON body: whether it is an object (\<open>data.get\<close>
  exists), and for the value under a key whether it is a string, and if not its truth
  value.
\<close>

datatype jvalue = JString string | JNonString bool

datatype jdata = JObject "string \<Rightarrow> jvalue option" | JNotObject

record response =
  raise_for_status :: "exn option"
  json :: "exn + jdata"
  body_text :: string

datatype event =
    Print string
  | Probe string real
  | Call_gethostbyname string
  | Call_sr1 packet real
  | Call_udp_connect string int
  | Call_Resolver
  | Call_requests_get string real

subsection \<open>The environment\<close>

text \<open>
  \<open>inet_aton\<close> and \<open>inet_pton_AF_INET6\<close> return \<open>None\<close> when the call returns and the
  exception when it raises; they depend on their argument only. The source builds the
  packet and calls \<open>sr1\<close> inside one \<open>try\<close>; \<open>sr1\<close> here stands for both steps.
  \<open>udp_sockname\<close> stands for the socket calls of \<open>get_local_ip\<close>, which are inside one
  \<open>try\<close> too.
\<close>

record env =
  SCAPY_AVAILABLE :: bool
  DNSPYTHON_AVAILABLE :: bool
  REQUESTS_AVAILABLE :: bool
  inet_aton :: "string \<Rightarrow> exn option"
  inet_pton_AF_INET6 :: "string \<Rightarrow> exn option"
  gethostbyname :: "event list \<Rightarrow> string \<Rightarrow> exn + string"
  sr1 :: "event list \<Rightarrow> packet \<Rightarrow> real \<Rightarrow> exn + answer option"
  udp_sockname :: "event list \<Rightarrow> string \<Rightarrow> int \<Rightarrow> exn + string"
  Resolver_nameservers :: "event list \<Rightarrow> exn + string list"
  requests_get :: "event list \<Rightarrow> string \<Rightarrow> real \<Rightarrow> exn + response"

subsection \<open>Network information\<close>

definition get_local_ip :: "env \<Rightarrow> string \<Rightarrow> int \<Rightarrow> event list \<Rightarrow> string option \<times> event list" where
  "get_local_ip e target_ip target_port tr =
     (case udp_sockname e tr target_ip target_port of
        Inr ip \<Rightarrow> (Some ip, tr @ [Call_udp_connect target_ip target_port])
      | Inl x \<Rightarrow> (None, tr @ [Call_udp_connect target_ip target_port]))"

definition get_dns_servers :: "env \<Rightarrow> event list \<Rightarrow> string list \<times> event list" where
  "get_dns_servers e tr =
     (if \<not> DNSPYTHON_AVAILABLE e then ([], tr)
      else (case Resolver_nameservers e tr of
              Inr ns \<Rightarrow> (ns, tr @ [Call_Resolver])
            | Inl x \<Rightarrow> ([], tr @ [Call_Resolver])))"

definition endpoints :: "(string \<times> string) list" where
  "endpoints =
     [(''https://api.ipify.org?format=json'', ''json''),
      (''https://api64.ipify.org?format=json'', ''json''),
      (''https://ifconfig.me/ip'', ''text'')]"

text \<open>
  The loop of \<open>get_public_ip\<close> over the endpoints. Every exception raised in the body
  is caught and continues with the next endpoint; so does a JSON body without a true
  \<open>ip\<close>, which falls out of the \<open>try\<close>. \<open>data.get\<close> on a body that is not an object and
  \<open>ip.strip\<close> on a value that is not a string raise AttributeError.
\<close>

fun get_public_ip_loop ::
  "env \<Rightarrow> real \<Rightarrow> (string \<times> string) list \<Rightarrow> event list \<Rightarrow> string option \<times> event list" where
  "get_public_ip_loop e timeout [] tr = (None, tr)"
| "get_public_ip_loop e timeout ((url, kind) # rest) tr =
     (let tr1 = tr @ [Call_requests_get url timeout] in
      case requests_get e tr url timeout of
        Inl x \<Rightarrow> get_public_ip_loop e timeout rest tr1
      | Inr r \<Rightarrow>
          (case raise_for_status r of
             Some x \<Rightarrow> get_public_ip_loop e timeout rest tr1
           | None \<Rightarrow>
               if kind = ''json'' then
                 (case json r of
                    Inl x \<Rightarrow> get_public_ip_loop e timeout rest tr1
                  | Inr JNotObject \<Rightarrow> get_public_ip_loop e timeout rest tr1
                  | Inr (JObject d) \<Rightarrow>
                      (case d ''ip'' of
                         None \<Rightarrow> get_public_ip_loop e timeout rest tr1
                       | Some (JNonString b) \<Rightarrow> get_public_ip_loop e timeout rest tr1
                       | Some (JString ip) \<Rightarrow>
                           if ip \<noteq> [] then (Some (strip ip), tr1)
                           else get_public_ip_loop e timeout rest tr1))
               else (Some (strip (body_text r)), tr1)))"

definition get_public_ip :: "env \<Rightarrow> real \<Rightarrow> event list \<Rightarrow> string option \<times> event list" where
  "get_public_ip e timeout tr =
     (if \<not> REQUESTS_AVAILABLE e then (None, tr)
      else get_public_ip_loop e timeout endpoints tr)"

subsection \<open>Pinging\<close>

text \<open>\<open>_is_ipv6\<close> and \<open>_resolve_target\<close> of the source, without the leading underscore.\<close>

definition is_ipv6 :: "string \<Rightarrow> bool" where
  "is_ipv6 addr = str_contains '':'' addr"

text \<open>
  The first two \<open>try\<close> blocks catch \<open>OSError\<close> only: any other exception of the parser
  leaves the function. The third catches every exception.
\<close>

definition resolve_target ::
  "env \<Rightarrow> string \<Rightarrow> event list \<Rightarrow> (exn + string \<times> string option) \<times> event list" where
  "resolve_target e target tr =
     (case inet_aton e target of
        None \<Rightarrow> (Inr (target, Some target), tr)
      | Some x \<Rightarrow>
          if \<not> is_OSError x then (Inl x, tr)
          else
            (case inet_pton_AF_INET6 e target of
               None \<Rightarrow> (Inr (target, Some target), tr)
             | Some y \<Rightarrow>
                 if \<not> is_OSError y then (Inl y, tr)
                 else
                   (case gethostbyname e tr target of
                      Inr ip \<Rightarrow> (Inr (target, Some ip), tr @ [Call_gethostbyname target])
                    | Inl z \<Rightarrow> (Inr (target, None), tr @ [Call_gethostbyname target]))))"

text \<open>The \<open>try\<close> block of \<open>scapy_ping_once\<close>, from the resolved address on.\<close>

definition send_echo :: "env \<Rightarrow> string \<Rightarrow> real \<Rightarrow> event list \<Rightarrow> string \<times> event list" where
  "send_echo e ip timeout tr =
     (let pkt = (if is_ipv6 ip then IPv6_ICMPv6EchoRequest ip else IP_ICMP ip);
          tr1 = tr @ [Call_sr1 pkt timeout]
      in case sr1 e tr pkt timeout of
           Inr ans \<Rightarrow>
             (if is_ipv6 ip then
                (if ans \<noteq> None \<and> haslayer_ICMPv6EchoReply (the ans) then (''OK'', tr1)
                 else (''FAILED'', tr1))
              else
                (if ans \<noteq> None \<and> haslayer_ICMP (the ans) \<and> getlayer_ICMP_type (the ans) = Some 0
                 then (''OK'', tr1)
                 else (''FAILED'', tr1)))
         | Inl (PermissionError m) \<Rightarrow> (''NO_PERM'', tr1)
         | Inl (OSError m) \<Rightarrow>
             (if str_contains ''Operation not permitted'' (str_exn (OSError m))
              then (''NO_PERM'', tr1) else (''ERROR'', tr1))
         | Inl (OtherException m) \<Rightarrow> (''ERROR'', tr1))"

definition scapy_ping_once ::
  "env \<Rightarrow> string \<Rightarrow> real \<Rightarrow> event list \<Rightarrow> (exn + string) \<times> event list" where
  "scapy_ping_once e dst timeout tr =
     (let tr0 = tr @ [Probe dst timeout] in
      if \<not> SCAPY_AVAILABLE e then (Inr ''NO_SCAPY'', tr0)
      else
        (case resolve_target e dst tr0 of
           (Inl x, tr1) \<Rightarrow> (Inl x, tr1)
         | (Inr (name, None), tr1) \<Rightarrow> (Inr ''RESOLVE_FAIL'', tr1)
         | (Inr (name, Some ip), tr1) \<Rightarrow>
             (case send_echo e ip timeout tr1 of (status, tr2) \<Rightarrow> (Inr status, tr2))))"

subsection \<open>Reporting\<close>

definition print_network_info :: "env \<Rightarrow> event list \<Rightarrow> event list" where
  "print_network_info e tr =
     (case get_local_ip e ''8.8.8.8'' 80 tr of (local_ip, tr1) \<Rightarrow>
      case get_dns_servers e tr1 of (dns_list, tr2) \<Rightarrow>
      case get_public_ip e 3 tr2 of (public_ip, tr3) \<Rightarrow>
        tr3 @ [Print []]
        @ [Print (if local_ip \<noteq> None \<and> the local_ip \<noteq> []
                  then ''Local IP Address: '' @ the local_ip
                  else ''Local IP Address: <could not determine>'')]
        @ [Print (if dns_list \<noteq> [] then ''DNS Server(s): '' @ join '', '' dns_list
                  else if \<not> DNSPYTHON_AVAILABLE e then ''DNS Server(s): <dnspython not installed>''
                  else ''DNS Server(s): <could not determine>'')]
        @ [Print (if public_ip \<noteq> None \<and> the public_ip \<noteq> []
                  then ''Public IP Address: '' @ the public_ip
                  else if \<not> REQUESTS_AVAILABLE e then ''Public IP Address: <requests not installed>''
                  else ''Public IP Address: <could not determine>'')])"

text \<open>The loop of \<open>print_pings\<close> over the default DNS servers.\<close>

fun ping_dns_servers :: "env \<Rightarrow> string list \<Rightarrow> event list \<Rightarrow> (exn + unit) \<times> event list" where
  "ping_dns_servers e [] tr = (Inr (), tr)"
| "ping_dns_servers e (ns # rest) tr =
     (case scapy_ping_once e ns 1 tr of
        (Inl x, tr1) \<Rightarrow> (Inl x, tr1)
      | (Inr status, tr1) \<Rightarrow>
          ping_dns_servers e rest (tr1 @ [Print (''default DNS Server '' @ ns @ '': '' @ status)]))"

text \<open>The body of the loop of \<open>print_pings\<close> over the user's targets, and the loop.\<close>

definition ping_user_target :: "env \<Rightarrow> string \<Rightarrow> event list \<Rightarrow> (exn + unit) \<times> event list" where
  "ping_user_target e t tr =
     (case resolve_target e t tr of
        (Inl x, tr1) \<Rightarrow> (Inl x, tr1)
      | (Inr (name, ip), tr1) \<Rightarrow>
          (case scapy_ping_once e t 1 tr1 of
             (Inl x, tr2) \<Rightarrow> (Inl x, tr2)
           | (Inr status, tr2) \<Rightarrow>
               if ip \<noteq> None \<and> the ip \<noteq> [] \<and> name \<noteq> the ip
               then (Inr (), tr2 @ [Print (name @ '' '' @ the ip @ '': '' @ status)])
               else (Inr (), tr2 @ [Print (name @ '': '' @ status)])))"

fun ping_user_targets :: "env \<Rightarrow> string list \<Rightarrow> event list \<Rightarrow> (exn + unit) \<times> event list" where
  "ping_user_targets e [] tr = (Inr (), tr)"
| "ping_user_targets e (t # rest) tr =
     (case ping_user_target e t tr of
        (Inl x, tr1) \<Rightarrow> (Inl x, tr1)
      | (Inr u, tr1) \<Rightarrow> ping_user_targets e rest tr1)"

definition print_pings ::
  "env \<Rightarrow> string list option \<Rightarrow> string list \<Rightarrow> event list \<Rightarrow> (exn + unit) \<times> event list" where
  "print_pings e user_targets dns_list tr =
     (let tr0 = tr @ [Print [], Print ''Pinging ...''] in
      case (if dns_list \<noteq> [] then ping_dns_servers e dns_list tr0
            else (Inr (), tr0 @ [Print ''default DNS Server <none found>: SKIPPED''])) of
        (Inl x, tr1) \<Rightarrow> (Inl x, tr1)
      | (Inr u, tr1) \<Rightarrow>
          (case scapy_ping_once e ''8.8.8.8'' 1 tr1 of
             (Inl x, tr2) \<Rightarrow> (Inl x, tr2)
           | (Inr status, tr2) \<Rightarrow>
               (let tr3 = tr2 @ [Print (''public DNS Server '' @ ''8.8.8.8'' @ '': '' @ status)] in
                if user_targets \<noteq> None \<and> the user_targets \<noteq> []
                then ping_user_targets e (the user_targets) tr3
                else (Inr (), tr3))))"

text \<open>
  The parsed command line: \<open>ping\<close> is \<open>None\<close> when no \<open>-p\<close> was given. \<open>main\<close> takes it as
  an argument, where the source calls \<open>parse_args\<close>.
\<close>

record args =
  no_ping :: bool
  quiet :: bool
  ping :: "string list option"

definition WELCOME :: string where
  "WELCOME = ''Welcome to the python network troubleshooter!''"

definition main :: "env \<Rightarrow> args \<Rightarrow> event list \<Rightarrow> (exn + int) \<times> event list" where
  "main e a tr =
     (let tr0 = tr @ [Print [], Print WELCOME] in
      case get_dns_servers e tr0 of (dns_list, tr1) \<Rightarrow>
        if no_ping a then (Inr 0, print_network_info e tr1)
        else
          (let tr2 = (if \<not> quiet a then print_network_info e tr1 else tr1) in
           case print_pings e (Some (if ping a \<noteq> None \<and> the (ping a) \<noteq> [] then the (ping a) else []))
                  dns_list tr2 of
             (Inl x, tr3) \<Rightarrow> (Inl x, tr3)
           | (Inr u, tr3) \<Rightarrow> (Inr 0, tr3)))"

subsection \<open>Reading a history\<close>

text \<open>
  The targets of the calls of \<open>scapy_ping_once\<close>, the lines printed and the packets
  handed to \<open>sr1\<close>, each in the order of the run.
\<close>

fun probe_of :: "event \<Rightarrow> string list" where
  "probe_of (Probe dst timeout) = [dst]"
| "probe_of ev = []"

fun print_of :: "event \<Rightarrow> string list" where
  "print_of (Print line) = [line]"
| "print_of ev = []"

fun sr1_of :: "event \<Rightarrow> packet list" where
  "sr1_of (Call_sr1 pkt timeout) = [pkt]"
| "sr1_of ev = []"

definition probe_targets :: "event list \<Rightarrow> string list" where
  "probe_targets tr = concat (map probe_of tr)"

definition printed :: "event list \<Rightarrow> string list" where
  "printed tr = concat (map print_of tr)"

definition sent :: "event list \<Rightarrow> packet list" where
  "sent tr = concat (map sr1_of tr)"

text \<open>The library calls of address discovery, and those of resolving and probing.\<close>

fun is_discovery :: "event \<Rightarrow> bool" where
  "is_discovery (Call_udp_connect ip port) = True"
| "is_discovery Call_Resolver = True"
| "is_discovery (Call_requests_get url timeout) = True"
| "is_discovery ev = False"

fun is_lookup :: "event \<Rightarrow> bool" where
  "is_lookup (Call_gethostbyname name) = True"
| "is_lookup (Call_sr1 pkt timeout) = True"
| "is_lookup ev = False"

text \<open>The six status strings of \<open>scapy_ping_once\<close>.\<close>

definition statuses :: "string list" where
  "statuses = [''OK'', ''FAILED'', ''NO_SCAPY'', ''NO_PERM'', ''RESOLVE_FAIL'', ''ERROR'']"

text \<open>
  The parsers of address literals accept the string or reject it with \<open>OSError\<close>, the
  one exception that \<open>_resolve_target\<close> catches around them.
\<close>

definition parse_ok :: "env \<Rightarrow> string \<Rightarrow> bool" where
  "parse_ok e t =
     ((case inet_aton e t of None \<Rightarrow> True | Some x \<Rightarrow> is_OSError x) \<and>
      (case inet_pton_AF_INET6 e t of None \<Rightarrow> True | Some x \<Rightarrow> is_OSError x))"

subsection \<open>A test environment\<close>

text \<open>
  One host on which everything is installed. The parsers know three literals, reject a
  string holding a NUL character with \<open>ValueError\<close> as CPython's argument conversion
  does, and reject every other string with \<open>OSError\<close>. Only \<open>localhost\<close> resolves, only
  \<open>8.8.8.8\<close> answers an echo request, the system resolver is \<open>192.0.2.53\<close>, and of the
  lookup endpoints only the second answers.
\<close>

definition lab_inet_aton :: "string \<Rightarrow> exn option" where
  "lab_inet_aton s =
     (if CHR 0x00 \<in> set s then Some (OtherException ''ValueError: embedded null character'')
      else if s = ''8.8.8.8'' \<or> s = ''192.0.2.53'' then None
      else Some (OSError ''illegal IP address string passed to inet_aton''))"

definition lab_inet_pton :: "string \<Rightarrow> exn option" where
  "lab_inet_pton s =
     (if CHR 0x00 \<in> set s then Some (OtherException ''ValueError: embedded null character'')
      else if s = ''2001:db8::1'' then None
      else Some (OSError ''illegal IP address string passed to inet_pton''))"

definition lab_gethostbyname :: "event list \<Rightarrow> string \<Rightarrow> exn + string" where
  "lab_gethostbyname tr s =
     (if s = ''localhost'' then Inr ''127.0.0.1''
      else Inl (OSError ''[Errno -2] Name or service not known''))"

definition lab_sr1 :: "event list \<Rightarrow> packet \<Rightarrow> real \<Rightarrow> exn + answer option" where
  "lab_sr1 tr pkt timeout =
     (if pkt = IP_ICMP ''8.8.8.8'' then Inr (Some [L_IP, L_ICMP 0]) else Inr None)"

definition lab_requests_get :: "event list \<Rightarrow> string \<Rightarrow> real \<Rightarrow> exn + response" where
  \<open>lab_requests_get tr url timeout =
     (if url = ''https://api64.ipify.org?format=json''
      then Inr \<lparr>raise_for_status = None,
                json = Inr (JObject [''ip'' \<mapsto> JString ''203.0.113.7'']),
                body_text = ''{"ip":"203.0.113.7"}''\<rparr>
      else Inl (OtherException ''ConnectionError''))\<close>

definition lab_env :: env where
  "lab_env =
     \<lparr>SCAPY_AVAILABLE = True, DNSPYTHON_AVAILABLE = True, REQUESTS_AVAILABLE = True,
      inet_aton = lab_inet_aton, inet_pton_AF_INET6 = lab_inet_pton,
      gethostbyname = lab_gethostbyname, sr1 = lab_sr1,
      udp_sockname = (\<lambda>tr ip port. Inr ''10.0.0.5''),
      Resolver_nameservers = (\<lambda>tr. Inr [''192.0.2.53'']),
      requests_get = lab_requests_get\<rparr>"

text \<open>
  The same host where the first two endpoints cannot be reached and the third answers
  with status 200 and an empty body.
\<close>

definition empty_body_get :: "event list \<Rightarrow> string \<Rightarrow> real \<Rightarrow> exn + response" where
  "empty_body_get tr url timeout =
     (if url = ''https://ifconfig.me/ip''
      then Inr \<lparr>raise_for_status = None,
                json = Inl (OtherException ''JSONDecodeError''),
                body_text = []\<rparr>
      else Inl (OtherException ''ConnectionError''))"

definition empty_body_env :: env where
  "empty_body_env = lab_env\<lparr>requests_get := empty_body_get\<rparr>"

text \<open>The same host without scapy.\<close>

definition no_scapy_env :: env where
  "no_scapy_env = lab_env\<lparr>SCAPY_AVAILABLE := False\<rparr>"

section \<open>Properties\<close>

subsection \<open>Histories and single calls\<close>

lemma str_contains_single: "str_contains [c] s = (c \<in> set s)"
  by (induction s) auto

lemma is_ipv6_colon: "is_ipv6 addr = (CHR '':'' \<in> set addr)"
  by (simp add: is_ipv6_def str_contains_single)

lemma probe_targets_append: "probe_targets (xs @ ys) = probe_targets xs @ probe_targets ys"
  by (simp add: probe_targets_def)

lemma printed_append: "printed (xs @ ys) = printed xs @ printed ys"
  by (simp add: printed_def)


lemma lookups_silent:
  "list_all is_lookup evs \<Longrightarrow> probe_targets evs = [] \<and> printed evs = []"
proof (induction evs)
  case Nil
  show ?case by (simp add: probe_targets_def printed_def)
next
  case (Cons ev evs)
  then show ?case by (cases ev) (simp_all add: probe_targets_def printed_def)
qed

lemma discovery_silent:
  "list_all is_discovery evs \<Longrightarrow> probe_targets evs = [] \<and> printed evs = [] \<and> sent evs = []"
proof (induction evs)
  case Nil
  show ?case by (simp add: probe_targets_def printed_def sent_def)
next
  case (Cons ev evs)
  then show ?case by (cases ev) (simp_all add: probe_targets_def printed_def sent_def)
qed

lemma resolve_target_events:
  "\<exists>evs. snd (resolve_target e t tr) = tr @ evs \<and> (evs = [] \<or> evs = [Call_gethostbyname t])"
  by (simp add: resolve_target_def split: option.splits sum.splits)

lemma resolve_target_returns:
  "parse_ok e t \<Longrightarrow> \<exists>ip. fst (resolve_target e t tr) = Inr (t, ip)"
  by (auto simp: resolve_target_def parse_ok_def split: option.splits sum.splits)

lemma send_echo_status: "fst (send_echo e ip timeout tr) \<in> set statuses"
  by (simp add: send_echo_def statuses_def Let_def split: sum.splits exn.splits)

lemma send_echo_events:
  "snd (send_echo e ip timeout tr) =
     tr @ [Call_sr1 (if is_ipv6 ip then IPv6_ICMPv6EchoRequest ip else IP_ICMP ip) timeout]"
  by (simp add: send_echo_def Let_def split: sum.splits exn.splits)

lemma scapy_ping_once_run:
  assumes "parse_ok e t"
  shows "\<exists>st evs. scapy_ping_once e t timeout tr = (Inr st, tr @ Probe t timeout # evs)
           \<and> st \<in> set statuses \<and> list_all is_lookup evs"
proof (cases "SCAPY_AVAILABLE e")
  case False
  then show ?thesis by (simp add: scapy_ping_once_def statuses_def)
next
  case True
  let ?tr0 = "tr @ [Probe t timeout]"
  obtain ip where r: "fst (resolve_target e t ?tr0) = Inr (t, ip)"
    using resolve_target_returns [OF assms] by blast
  obtain evs where s: "snd (resolve_target e t ?tr0) = ?tr0 @ evs"
    and evs: "evs = [] \<or> evs = [Call_gethostbyname t]"
    using resolve_target_events by blast
  from r s have rt: "resolve_target e t ?tr0 = (Inr (t, ip), ?tr0 @ evs)"
    by (simp add: prod_eq_iff)
  show ?thesis
  proof (cases ip)
    case None
    with True rt evs show ?thesis
      by (auto simp: scapy_ping_once_def statuses_def)
  next
    case (Some a)
    obtain st tr2 where se: "send_echo e a timeout (?tr0 @ evs) = (st, tr2)"
      by (cases "send_echo e a timeout (?tr0 @ evs)")
    from se have "st \<in> set statuses"
      using send_echo_status [of e a timeout "?tr0 @ evs"] by simp
    moreover from se have "tr2 = (?tr0 @ evs) @ [Call_sr1 (if is_ipv6 a then IPv6_ICMPv6EchoRequest a else IP_ICMP a) timeout]"
      using send_echo_events [of e a timeout "?tr0 @ evs"] by simp
    ultimately show ?thesis
      using True rt Some se evs by (auto simp: scapy_ping_once_def)
  qed
qed

subsection \<open>The loops of the report\<close>

lemma ping_dns_servers_run:
  assumes "\<forall>t\<in>set dns. parse_ok e t"
  shows "\<exists>evs. ping_dns_servers e dns tr = (Inr (), tr @ evs)
           \<and> probe_targets evs = dns
           \<and> list_all2 (\<lambda>line t. \<exists>st\<in>set statuses. line = ''default DNS Server '' @ t @ '': '' @ st)
                (printed evs) dns"
  using assms
proof (induction dns arbitrary: tr)
  case Nil
  show ?case by (simp add: probe_targets_def printed_def)
next
  case (Cons ns rest)
  from Cons.prems have "parse_ok e ns" by simp
  then obtain st evs where p: "scapy_ping_once e ns 1 tr = (Inr st, tr @ Probe ns 1 # evs)"
    and st: "st \<in> set statuses" and evs: "list_all is_lookup evs"
    using scapy_ping_once_run by blast
  define line where "line = ''default DNS Server '' @ ns @ '': '' @ st"
  from Cons.prems have "\<forall>t\<in>set rest. parse_ok e t" by simp
  from Cons.IH [OF this, of "(tr @ Probe ns 1 # evs) @ [Print line]"]
  obtain evs' where r: "ping_dns_servers e rest ((tr @ Probe ns 1 # evs) @ [Print line])
        = (Inr (), ((tr @ Probe ns 1 # evs) @ [Print line]) @ evs')"
    and pt: "probe_targets evs' = rest"
    and pr: "list_all2 (\<lambda>line t. \<exists>st\<in>set statuses. line = ''default DNS Server '' @ t @ '': '' @ st)
                (printed evs') rest"
    by blast
  let ?new = "Probe ns 1 # evs @ [Print line] @ evs'"
  have 1: "ping_dns_servers e (ns # rest) tr = (Inr (), tr @ ?new)"
    using p r by (simp add: line_def)
  have s: "probe_targets evs = []" "printed evs = []"
    using lookups_silent [OF evs] by simp_all
  have 2: "probe_targets ?new = ns # rest"
    using pt s by (simp add: probe_targets_def)
  have 3: "printed ?new = line # printed evs'"
    using s by (simp add: printed_def)
  have 4: "\<exists>st\<in>set statuses. line = ''default DNS Server '' @ ns @ '': '' @ st"
    using st line_def by blast
  show ?case using 1 2 3 4 pr by (intro exI [of _ ?new]) simp
qed

lemma ping_user_target_run:
  assumes "parse_ok e t"
  shows "\<exists>evs line. ping_user_target e t tr = (Inr (), tr @ evs)
           \<and> probe_targets evs = [t] \<and> printed evs = [line]
           \<and> (\<exists>st\<in>set statuses. line = t @ '': '' @ st \<or> (\<exists>ip. line = t @ '' '' @ ip @ '': '' @ st))"
proof -
  obtain ip where r: "fst (resolve_target e t tr) = Inr (t, ip)"
    using resolve_target_returns [OF assms] by blast
  obtain evs1 where s: "snd (resolve_target e t tr) = tr @ evs1"
    and evs1: "evs1 = [] \<or> evs1 = [Call_gethostbyname t]"
    using resolve_target_events by blast
  from r s have rt: "resolve_target e t tr = (Inr (t, ip), tr @ evs1)"
    by (simp add: prod_eq_iff)
  obtain st evs2 where p: "scapy_ping_once e t 1 (tr @ evs1) = (Inr st, (tr @ evs1) @ Probe t 1 # evs2)"
    and st: "st \<in> set statuses" and evs2: "list_all is_lookup evs2"
    using scapy_ping_once_run [OF assms] by blast
  define line where "line = (if ip \<noteq> None \<and> the ip \<noteq> [] \<and> t \<noteq> the ip
                              then t @ '' '' @ the ip @ '': '' @ st else t @ '': '' @ st)"
  let ?new = "evs1 @ Probe t 1 # evs2 @ [Print line]"
  have 1: "ping_user_target e t tr = (Inr (), tr @ ?new)"
    using rt p by (simp add: ping_user_target_def line_def)
  have s1: "probe_targets evs1 = []" "printed evs1 = []"
    using evs1 by (auto simp: probe_targets_def printed_def)
  have s2: "probe_targets evs2 = []" "printed evs2 = []"
    using lookups_silent [OF evs2] by simp_all
  have 2: "probe_targets ?new = [t]"
    using s1 s2 by (simp add: probe_targets_append) (simp add: probe_targets_def)
  have 3: "printed ?new = [line]"
    using s1 s2 by (simp add: printed_append) (simp add: printed_def)
  have 4: "\<exists>st\<in>set statuses. line = t @ '': '' @ st \<or> (\<exists>ip. line = t @ '' '' @ ip @ '': '' @ st)"
    using st unfolding line_def by (intro bexI [of _ st]) auto
  show ?thesis using 1 2 3 4 by blast
qed

lemma ping_user_targets_run:
  assumes "\<forall>t\<in>set ts. parse_ok e t"
  shows "\<exists>evs. ping_user_targets e ts tr = (Inr (), tr @ evs)
           \<and> probe_targets evs = ts
           \<and> list_all2 (\<lambda>line t. \<exists>st\<in>set statuses.
                  line = t @ '': '' @ st \<or> (\<exists>ip. line = t @ '' '' @ ip @ '': '' @ st))
                (printed evs) ts"
  using assms
proof (induction ts arbitrary: tr)
  case Nil
  show ?case by (simp add: probe_targets_def printed_def)
next
  case (Cons t rest)
  from Cons.prems have "parse_ok e t" by simp
  from ping_user_target_run [OF this, of tr]
  obtain evs line where p: "ping_user_target e t tr = (Inr (), tr @ evs)"
    and pt: "probe_targets evs = [t]" and pr: "printed evs = [line]"
    and ln: "\<exists>st\<in>set statuses. line = t @ '': '' @ st \<or> (\<exists>ip. line = t @ '' '' @ ip @ '': '' @ st)"
    by blast
  from Cons.prems have "\<forall>t\<in>set rest. parse_ok e t" by simp
  from Cons.IH [OF this, of "tr @ evs"]
  obtain evs' where r: "ping_user_targets e rest (tr @ evs) = (Inr (), (tr @ evs) @ evs')"
    and pt': "probe_targets evs' = rest"
    and pr': "list_all2 (\<lambda>line t. \<exists>st\<in>set statuses.
                  line = t @ '': '' @ st \<or> (\<exists>ip. line = t @ '' '' @ ip @ '': '' @ st))
                (printed evs') rest"
    by blast
  have 1: "ping_user_targets e (t # rest) tr = (Inr (), tr @ (evs @ evs'))"
    using p r by simp
  have 2: "probe_targets (evs @ evs') = t # rest"
    using pt pt' by (simp add: probe_targets_append)
  have 3: "printed (evs @ evs') = line # printed evs'"
    using pr by (simp add: printed_append)
  show ?case using 1 2 3 ln pr' by (intro exI [of _ "evs @ evs'"]) simp
qed

lemma print_pings_run:
  assumes "\<forall>t\<in>set (dns @ [''8.8.8.8''] @ ts). parse_ok e t"
    and "ut = None \<and> ts = [] \<or> ut = Some ts"
  shows "\<exists>evs dlines pline ulines.
           print_pings e ut dns tr = (Inr (), tr @ evs)
           \<and> probe_targets evs = dns @ [''8.8.8.8''] @ ts
           \<and> printed evs = [[], ''Pinging ...''] @ dlines @ [pline] @ ulines
           \<and> (if dns = [] then dlines = [''default DNS Server <none found>: SKIPPED'']
               else list_all2 (\<lambda>line t. \<exists>st\<in>set statuses. line = ''default DNS Server '' @ t @ '': '' @ st)
                      dlines dns)
           \<and> (\<exists>st\<in>set statuses. pline = ''public DNS Server 8.8.8.8: '' @ st)
           \<and> list_all2 (\<lambda>line t. \<exists>st\<in>set statuses.
                  line = t @ '': '' @ st \<or> (\<exists>ip. line = t @ '' '' @ ip @ '': '' @ st))
                ulines ts"
proof -
  let ?tr0 = "tr @ [Print [], Print ''Pinging ...'']"
  let ?D = "\<lambda>line t. \<exists>st\<in>set statuses. line = ''default DNS Server '' @ t @ '': '' @ st"
  let ?U = "\<lambda>line t. \<exists>st\<in>set statuses.
                  line = t @ '': '' @ st \<or> (\<exists>ip. line = t @ '' '' @ ip @ '': '' @ st)"
  have "\<exists>evs1. (if dns \<noteq> [] then ping_dns_servers e dns ?tr0
            else (Inr (), ?tr0 @ [Print ''default DNS Server <none found>: SKIPPED''])) = (Inr (), ?tr0 @ evs1)
          \<and> probe_targets evs1 = dns
          \<and> (if dns = [] then printed evs1 = [''default DNS Server <none found>: SKIPPED'']
              else list_all2 ?D (printed evs1) dns)"
  proof (cases "dns = []")
    case True
    then show ?thesis by (simp add: probe_targets_def printed_def)
  next
    case False
    from assms(1) have "\<forall>t\<in>set dns. parse_ok e t" by simp
    from ping_dns_servers_run [OF this, of ?tr0] False show ?thesis by auto
  qed
  then obtain evs1 where
    d: "(if dns \<noteq> [] then ping_dns_servers e dns ?tr0
         else (Inr (), ?tr0 @ [Print ''default DNS Server <none found>: SKIPPED''])) = (Inr (), ?tr0 @ evs1)"
    and d1: "probe_targets evs1 = dns"
    and d2: "if dns = [] then printed evs1 = [''default DNS Server <none found>: SKIPPED'']
              else list_all2 ?D (printed evs1) dns"
    by blast
  from assms(1) have "parse_ok e ''8.8.8.8''" by simp
  from scapy_ping_once_run [OF this, of 1 "?tr0 @ evs1"]
  obtain st evs2 where p: "scapy_ping_once e ''8.8.8.8'' 1 (?tr0 @ evs1)
                             = (Inr st, (?tr0 @ evs1) @ Probe ''8.8.8.8'' 1 # evs2)"
    and st: "st \<in> set statuses" and evs2: "list_all is_lookup evs2"
    by blast
  define pline where "pline = ''public DNS Server '' @ ''8.8.8.8'' @ '': '' @ st"
  let ?tr3 = "((?tr0 @ evs1) @ Probe ''8.8.8.8'' 1 # evs2) @ [Print pline]"
  from assms(1) have "\<forall>t\<in>set ts. parse_ok e t" by simp
  from ping_user_targets_run [OF this, of ?tr3]
  obtain evs3 where u: "ping_user_targets e ts ?tr3 = (Inr (), ?tr3 @ evs3)"
    and u1: "probe_targets evs3 = ts" and u2: "list_all2 ?U (printed evs3) ts"
    by blast
  let ?new = "[Print [], Print ''Pinging ...''] @ evs1 @ Probe ''8.8.8.8'' 1 # evs2 @ [Print pline] @ evs3"
  have tail: "(if ut \<noteq> None \<and> the ut \<noteq> [] then ping_user_targets e (the ut) ?tr3 else (Inr (), ?tr3))
               = (Inr (), ?tr3 @ evs3)"
  proof (cases "ts = []")
    case True
    with u have "evs3 = []" by simp
    with True assms(2) show ?thesis by auto
  next
    case False
    with assms(2) have "ut = Some ts" by auto
    with False u show ?thesis by simp
  qed
  have "print_pings e ut dns tr = (Inr (), ?tr3 @ evs3)"
    by (simp only: print_pings_def Let_def d prod.case sum.case p pline_def [symmetric] tail)
  then have 1: "print_pings e ut dns tr = (Inr (), tr @ ?new)"
    by simp
  have s2: "probe_targets evs2 = []" "printed evs2 = []"
    using lookups_silent [OF evs2] by simp_all
  have 2: "probe_targets ?new = dns @ [''8.8.8.8''] @ ts"
    using d1 u1 s2 by (simp add: probe_targets_append) (simp add: probe_targets_def)
  have 3: "printed ?new = [[], ''Pinging ...''] @ printed evs1 @ [pline] @ printed evs3"
    using s2 by (simp add: printed_append) (simp add: printed_def)
  have 4: "\<exists>st\<in>set statuses. pline = ''public DNS Server 8.8.8.8: '' @ st"
    using st by (intro bexI [of _ st]) (simp add: pline_def)
  show ?thesis
    using 1 2 3 4 d2 u2
    by (intro exI [of _ ?new] exI [of _ "printed evs1"] exI [of _ pline] exI [of _ "printed evs3"])
       simp
qed

subsection \<open>The echo probe\<close>

lemma first_ICMP_type_0:
  "(haslayer_ICMP ans \<and> getlayer_ICMP_type ans = Some 0) =
     (\<exists>pre post. ans = pre @ L_ICMP 0 # post \<and> (\<forall>l\<in>set pre. \<not> is_ICMP l))"
proof (induction ans)
  case Nil
  show ?case by (simp add: haslayer_ICMP_def getlayer_ICMP_type_def)
next
  case (Cons l ls)
  show ?case
  proof (cases "is_ICMP l")
    case True
    then obtain ty where l: "l = L_ICMP ty" by (cases l) simp_all
    have "(\<exists>pre post. l # ls = pre @ L_ICMP 0 # post \<and> (\<forall>l\<in>set pre. \<not> is_ICMP l)) = (ty = 0)"
    proof
      assume "\<exists>pre post. l # ls = pre @ L_ICMP 0 # post \<and> (\<forall>l\<in>set pre. \<not> is_ICMP l)"
      then obtain pre post where eq: "l # ls = pre @ L_ICMP 0 # post"
        and pre: "\<forall>l\<in>set pre. \<not> is_ICMP l" by blast
      show "ty = 0"
      proof (cases pre)
        case Nil
        with eq l show ?thesis by simp
      next
        case (Cons a as)
        with eq have "a = l" by simp
        with pre Cons True show ?thesis by simp
      qed
    next
      assume "ty = 0"
      with l have "l # ls = [] @ L_ICMP 0 # ls \<and> (\<forall>l\<in>set []. \<not> is_ICMP l)" by simp
      then show "\<exists>pre post. l # ls = pre @ L_ICMP 0 # post \<and> (\<forall>l\<in>set pre. \<not> is_ICMP l)"
        by blast
    qed
    with l show ?thesis by (simp add: haslayer_ICMP_def getlayer_ICMP_type_def)
  next
    case False
    have "(\<exists>pre post. l # ls = pre @ L_ICMP 0 # post \<and> (\<forall>l\<in>set pre. \<not> is_ICMP l))
          = (\<exists>pre post. ls = pre @ L_ICMP 0 # post \<and> (\<forall>l\<in>set pre. \<not> is_ICMP l))"
    proof
      assume "\<exists>pre post. l # ls = pre @ L_ICMP 0 # post \<and> (\<forall>l\<in>set pre. \<not> is_ICMP l)"
      then obtain pre post where eq: "l # ls = pre @ L_ICMP 0 # post"
        and pre: "\<forall>l\<in>set pre. \<not> is_ICMP l" by blast
      show "\<exists>pre post. ls = pre @ L_ICMP 0 # post \<and> (\<forall>l\<in>set pre. \<not> is_ICMP l)"
      proof (cases pre)
        case Nil
        with eq False show ?thesis by simp
      next
        case (Cons a as)
        with eq pre have "ls = as @ L_ICMP 0 # post \<and> (\<forall>l\<in>set as. \<not> is_ICMP l)" by simp
        then show ?thesis by blast
      qed
    next
      assume "\<exists>pre post. ls = pre @ L_ICMP 0 # post \<and> (\<forall>l\<in>set pre. \<not> is_ICMP l)"
      then obtain pre post where "ls = pre @ L_ICMP 0 # post" and "\<forall>l\<in>set pre. \<not> is_ICMP l"
        by blast
      with False have "l # ls = (l # pre) @ L_ICMP 0 # post \<and> (\<forall>x\<in>set (l # pre). \<not> is_ICMP x)"
        by simp
      then show "\<exists>pre post. l # ls = pre @ L_ICMP 0 # post \<and> (\<forall>l\<in>set pre. \<not> is_ICMP l)"
        by blast
    qed
    with False Cons.IH show ?thesis
      by (simp add: haslayer_ICMP_def getlayer_ICMP_type_def)
  qed
qed

lemma haslayer_ICMPv6EchoReply_set: "haslayer_ICMPv6EchoReply ans = (L_ICMPv6EchoReply \<in> set ans)"
  by (auto simp: haslayer_ICMPv6EchoReply_def list_ex_iff)

lemma send_echo_no_answer:
  assumes "sr1 e tr (if is_ipv6 ip then IPv6_ICMPv6EchoRequest ip else IP_ICMP ip) timeout = Inr None"
  shows "fst (send_echo e ip timeout tr) = ''FAILED''"
  using assms by (simp add: send_echo_def Let_def)

lemma send_echo_answer:
  assumes "sr1 e tr (if is_ipv6 ip then IPv6_ICMPv6EchoRequest ip else IP_ICMP ip) timeout
             = Inr (Some ans)"
  shows "fst (send_echo e ip timeout tr) =
           (if (if is_ipv6 ip then haslayer_ICMPv6EchoReply ans
                else haslayer_ICMP ans \<and> getlayer_ICMP_type ans = Some 0)
            then ''OK'' else ''FAILED'')"
  using assms by (simp add: send_echo_def Let_def)

text \<open>
  C6. Without the echo capability \<open>scapy_ping_once\<close> returns \<open>NO_SCAPY\<close> (the spec's
  NO_CAPABILITY) for every target at once: the history grows by the call itself and by
  nothing else, so the target is not resolved and nothing is sent.
\<close>

theorem no_capability_first:
  assumes "\<not> SCAPY_AVAILABLE e"
  shows "scapy_ping_once e dst timeout tr = (Inr ''NO_SCAPY'', tr @ [Probe dst timeout])"
  using assms by (simp add: scapy_ping_once_def)

theorem no_capability_first_witness:
  "\<not> SCAPY_AVAILABLE no_scapy_env
   \<and> scapy_ping_once no_scapy_env ''example.invalid'' 1 []
       = (Inr ''NO_SCAPY'', [] @ [Probe ''example.invalid'' 1])
   \<and> fst (scapy_ping_once lab_env ''example.invalid'' 1 []) = Inr ''RESOLVE_FAIL''"
proof -
  have h: "\<not> SCAPY_AVAILABLE no_scapy_env"
    by (simp add: no_scapy_env_def lab_env_def)
  have r: "fst (scapy_ping_once lab_env ''example.invalid'' 1 []) = Inr ''RESOLVE_FAIL''"
    by (simp add: scapy_ping_once_def resolve_target_def lab_env_def lab_inet_aton_def
        lab_inet_pton_def lab_gethostbyname_def)
  show ?thesis
    using h r no_capability_first [OF h, of "''example.invalid''" 1 "[]"] by simp
qed

text \<open>
  C7. A call that reaches the send and receive step, that is with the capability and a
  resolved address \<open>ip\<close>: the packet is the IPv6 echo request when \<open>ip\<close> holds a colon and
  the IPv4 one otherwise, and it is sent once. No answer within the timeout gives
  \<open>FAILED\<close>. An answer gives \<open>OK\<close> when it is the expected echo reply (for IPv6 an
  ICMPv6 echo reply layer, for IPv4 a first ICMP layer of type 0) and \<open>FAILED\<close> when
  it is not.
\<close>

theorem probe_classification:
  assumes "SCAPY_AVAILABLE e"
    and "resolve_target e dst (tr @ [Probe dst timeout]) = (Inr (name, Some ip), tr1)"
  shows "let pkt = (if CHR '':'' \<in> set ip then IPv6_ICMPv6EchoRequest ip else IP_ICMP ip) in
         snd (scapy_ping_once e dst timeout tr) = tr1 @ [Call_sr1 pkt timeout]
         \<and> (sr1 e tr1 pkt timeout = Inr None \<longrightarrow>
              fst (scapy_ping_once e dst timeout tr) = Inr ''FAILED'')
         \<and> (\<forall>ans. sr1 e tr1 pkt timeout = Inr (Some ans) \<longrightarrow>
              fst (scapy_ping_once e dst timeout tr) =
                Inr (if (if CHR '':'' \<in> set ip then L_ICMPv6EchoReply \<in> set ans
                         else \<exists>pre post. ans = pre @ L_ICMP 0 # post \<and> (\<forall>l\<in>set pre. \<not> is_ICMP l))
                     then ''OK'' else ''FAILED''))"
proof -
  let ?pkt = "if CHR '':'' \<in> set ip then IPv6_ICMPv6EchoRequest ip else IP_ICMP ip"
  have pk: "(if is_ipv6 ip then IPv6_ICMPv6EchoRequest ip else IP_ICMP ip) = ?pkt"
    by (simp add: is_ipv6_colon)
  have sp: "scapy_ping_once e dst timeout tr =
              (Inr (fst (send_echo e ip timeout tr1)), snd (send_echo e ip timeout tr1))"
    using assms by (simp add: scapy_ping_once_def split: prod.splits)
  have 1: "snd (scapy_ping_once e dst timeout tr) = tr1 @ [Call_sr1 ?pkt timeout]"
    using sp send_echo_events [of e ip timeout tr1] pk by simp
  have 2: "fst (scapy_ping_once e dst timeout tr) = Inr ''FAILED''"
    if "sr1 e tr1 ?pkt timeout = Inr None"
    using sp send_echo_no_answer [of e tr1 ip timeout] that pk by simp
  have 3: "fst (scapy_ping_once e dst timeout tr) =
             Inr (if (if CHR '':'' \<in> set ip then L_ICMPv6EchoReply \<in> set ans
                      else \<exists>pre post. ans = pre @ L_ICMP 0 # post \<and> (\<forall>l\<in>set pre. \<not> is_ICMP l))
                  then ''OK'' else ''FAILED'')"
    if "sr1 e tr1 ?pkt timeout = Inr (Some ans)" for ans
  proof -
    from that pk have "sr1 e tr1 (if is_ipv6 ip then IPv6_ICMPv6EchoRequest ip else IP_ICMP ip) timeout
                         = Inr (Some ans)" by simp
    from send_echo_answer [OF this]
    have "fst (send_echo e ip timeout tr1) =
            (if (if CHR '':'' \<in> set ip then L_ICMPv6EchoReply \<in> set ans
                 else \<exists>pre post. ans = pre @ L_ICMP 0 # post \<and> (\<forall>l\<in>set pre. \<not> is_ICMP l))
             then ''OK'' else ''FAILED'')"
      by (simp only: is_ipv6_colon haslayer_ICMPv6EchoReply_set first_ICMP_type_0)
    with sp show ?thesis by simp
  qed
  show ?thesis
    unfolding Let_def using 1 2 3 by blast
qed

theorem probe_classification_witness:
  "SCAPY_AVAILABLE lab_env
   \<and> resolve_target lab_env ''8.8.8.8'' ([] @ [Probe ''8.8.8.8'' 1])
       = (Inr (''8.8.8.8'', Some ''8.8.8.8''), [Probe ''8.8.8.8'' 1])
   \<and> sr1 lab_env [Probe ''8.8.8.8'' 1] (IP_ICMP ''8.8.8.8'') 1 = Inr (Some [L_IP, L_ICMP 0])
   \<and> scapy_ping_once lab_env ''8.8.8.8'' 1 []
       = (Inr ''OK'', [Probe ''8.8.8.8'' 1, Call_sr1 (IP_ICMP ''8.8.8.8'') 1])"
proof -
  have h1: "SCAPY_AVAILABLE lab_env" by (simp add: lab_env_def)
  have h2: "resolve_target lab_env ''8.8.8.8'' ([] @ [Probe ''8.8.8.8'' 1])
       = (Inr (''8.8.8.8'', Some ''8.8.8.8''), [Probe ''8.8.8.8'' 1])"
    by (simp add: resolve_target_def lab_env_def lab_inet_aton_def)
  have h3: "sr1 lab_env [Probe ''8.8.8.8'' 1] (IP_ICMP ''8.8.8.8'') 1 = Inr (Some [L_IP, L_ICMP 0])"
    by (simp add: lab_env_def lab_sr1_def)
  have ex: "\<exists>pre post. [L_IP, L_ICMP 0] = pre @ L_ICMP 0 # post \<and> (\<forall>l\<in>set pre. \<not> is_ICMP l)"
    by (intro exI [of _ "[L_IP]"] exI [of _ "[]"]) simp
  from probe_classification [OF h1 h2]
  have "scapy_ping_once lab_env ''8.8.8.8'' 1 []
       = (Inr ''OK'', [Probe ''8.8.8.8'' 1, Call_sr1 (IP_ICMP ''8.8.8.8'') 1])"
    using h3 ex by (simp add: Let_def prod_eq_iff)
  with h1 h2 h3 show ?thesis by blast
qed

subsection \<open>Resolution, failures of the probe, the public address\<close>

lemma resolve_target_on_parsable:
  assumes "parse_ok e t"
  shows "resolve_target e t tr =
           (if inet_aton e t = None \<or> inet_pton_AF_INET6 e t = None then (Inr (t, Some t), tr)
            else (case gethostbyname e tr t of
                    Inr ip \<Rightarrow> (Inr (t, Some ip), tr @ [Call_gethostbyname t])
                  | Inl z \<Rightarrow> (Inr (t, None), tr @ [Call_gethostbyname t])))"
  using assms by (auto simp: resolve_target_def parse_ok_def split: option.splits sum.splits)

text \<open>
  C8. \<open>_resolve_target\<close> returns the input as the name, the input as the address when it
  is an IPv4 or IPv6 literal, and otherwise what \<open>gethostbyname\<close> resolves, or no address
  when \<open>gethostbyname\<close> raises (lemma \<open>resolve_target_on_parsable\<close>). But an exception does
  escape: around the two parsers only \<open>OSError\<close> is caught, and for a string that holds a
  NUL character \<open>socket.inet_aton\<close> raises \<open>ValueError\<close>. The docstring promises
  \<open>(target, None)\<close> when resolution fails.
\<close>

theorem resolve_target_raises:
  "resolve_target lab_env [CHR ''a'', CHR 0x00] []
     = (Inl (OtherException ''ValueError: embedded null character''), [])"
  by (simp add: resolve_target_def lab_env_def lab_inet_aton_def)

lemma send_echo_failure:
  assumes "sr1 e tr (if is_ipv6 ip then IPv6_ICMPv6EchoRequest ip else IP_ICMP ip) timeout = Inl x"
  shows "fst (send_echo e ip timeout tr) =
           (case x of
              PermissionError m \<Rightarrow> ''NO_PERM''
            | OSError m \<Rightarrow> if str_contains ''Operation not permitted'' m then ''NO_PERM'' else ''ERROR''
            | OtherException m \<Rightarrow> ''ERROR'')"
  using assms by (simp add: send_echo_def Let_def split: exn.splits)

text \<open>
  C1. Once the target is resolved, \<open>scapy_ping_once\<close> ends in one of its six status
  strings, whatever \<open>sr1\<close> does (lemmas \<open>scapy_ping_once_run\<close>, \<open>send_echo_failure\<close>:
  \<open>PermissionError\<close>, and \<open>OSError\<close> with the text "Operation not permitted", give
  \<open>NO_PERM\<close>, every other exception gives \<open>ERROR\<close>). But \<open>_resolve_target\<close> is called
  before the \<open>try\<close>, so the \<open>ValueError\<close> of the parsers on a string that holds a NUL
  character leaves \<open>scapy_ping_once\<close>, which then returns no status at all.
\<close>

theorem scapy_ping_once_raises:
  "scapy_ping_once lab_env [CHR ''a'', CHR 0x00] 1 []
     = (Inl (OtherException ''ValueError: embedded null character''),
        [Probe [CHR ''a'', CHR 0x00] 1])"
  by (simp add: scapy_ping_once_def resolve_target_def lab_env_def lab_inet_aton_def)

lemma get_public_ip_no_requests:
  "\<not> REQUESTS_AVAILABLE e \<Longrightarrow> get_public_ip e timeout tr = (None, tr)"
  by (simp add: get_public_ip_def)

lemma get_public_ip_stops_at_first_success:
  "get_public_ip lab_env 3 []
     = (Some ''203.0.113.7'',
        [Call_requests_get ''https://api.ipify.org?format=json'' 3,
         Call_requests_get ''https://api64.ipify.org?format=json'' 3])"
  by (simp add: get_public_ip_def endpoints_def lab_env_def lab_requests_get_def strip_def
      isspace_def)

text \<open>
  C4. \<open>get_public_ip\<close> asks the endpoints in order and stops at the first that succeeds
  (lemma \<open>get_public_ip_stops_at_first_success\<close>), and returns \<open>None\<close> without the
  requests library. An empty value is a failure for the JSON endpoints only: the body of
  the plain text endpoint is returned without the test \<open>if ip:\<close> of the JSON branch. When
  the first two endpoints fail and the third answers with an empty body, the result is
  the empty string, not \<open>None\<close>.
\<close>

theorem get_public_ip_empty_text:
  "get_public_ip empty_body_env 3 []
     = (Some [],
        [Call_requests_get ''https://api.ipify.org?format=json'' 3,
         Call_requests_get ''https://api64.ipify.org?format=json'' 3,
         Call_requests_get ''https://ifconfig.me/ip'' 3])"
  by (simp add: get_public_ip_def endpoints_def empty_body_env_def lab_env_def
      empty_body_get_def strip_def)

subsection \<open>Address discovery\<close>

lemma get_local_ip_events:
  "snd (get_local_ip e ip port tr) = tr @ [Call_udp_connect ip port]"
  by (simp add: get_local_ip_def split: sum.splits)

lemma get_dns_servers_events:
  "snd (get_dns_servers e tr) = tr @ (if DNSPYTHON_AVAILABLE e then [Call_Resolver] else [])"
  by (simp add: get_dns_servers_def split: sum.splits)

lemma get_public_ip_loop_events:
  "\<exists>evs. snd (get_public_ip_loop e timeout eps tr) = tr @ evs \<and> list_all is_discovery evs"
proof (induction eps arbitrary: tr)
  case Nil
  show ?case by simp
next
  case (Cons ep eps)
  obtain url kind where ep: "ep = (url, kind)" by (cases ep)
  let ?tr1 = "tr @ [Call_requests_get url timeout]"
  from Cons.IH [of ?tr1] obtain evs where
    ih: "snd (get_public_ip_loop e timeout eps ?tr1) = ?tr1 @ evs" and d: "list_all is_discovery evs"
    by blast
  have "snd (get_public_ip_loop e timeout (ep # eps) tr) = ?tr1
        \<or> snd (get_public_ip_loop e timeout (ep # eps) tr) = snd (get_public_ip_loop e timeout eps ?tr1)"
    by (simp add: ep Let_def split: sum.splits option.splits jdata.splits jvalue.splits)
  then show ?case
  proof
    assume "snd (get_public_ip_loop e timeout (ep # eps) tr) = ?tr1"
    then show ?thesis by (intro exI [of _ "[Call_requests_get url timeout]"]) simp
  next
    assume "snd (get_public_ip_loop e timeout (ep # eps) tr) = snd (get_public_ip_loop e timeout eps ?tr1)"
    with ih d show ?thesis
      by (intro exI [of _ "Call_requests_get url timeout # evs"]) simp
  qed
qed

lemma get_public_ip_events:
  "\<exists>evs. snd (get_public_ip e timeout tr) = tr @ evs \<and> list_all is_discovery evs"
proof (cases "REQUESTS_AVAILABLE e")
  case True
  with get_public_ip_loop_events [of e timeout endpoints tr] show ?thesis
    by (simp add: get_public_ip_def)
next
  case False
  then show ?thesis by (simp add: get_public_ip_def)
qed

lemma print_network_info_run:
  "\<exists>evs r1 r2 r3. print_network_info e tr =
       tr @ evs @ [Print [], Print (''Local IP Address: '' @ r1),
                   Print (''DNS Server(s): '' @ r2), Print (''Public IP Address: '' @ r3)]
     \<and> list_all is_discovery evs"
proof -
  obtain local_ip tr1 where l: "get_local_ip e ''8.8.8.8'' 80 tr = (local_ip, tr1)"
    by (cases "get_local_ip e ''8.8.8.8'' 80 tr")
  obtain dns_list tr2 where d: "get_dns_servers e tr1 = (dns_list, tr2)"
    by (cases "get_dns_servers e tr1")
  obtain public_ip tr3 where p: "get_public_ip e 3 tr2 = (public_ip, tr3)"
    by (cases "get_public_ip e 3 tr2")
  have t1: "tr1 = tr @ [Call_udp_connect ''8.8.8.8'' 80]"
    using l get_local_ip_events [of e "''8.8.8.8''" 80 tr] by simp
  have t2: "tr2 = tr1 @ (if DNSPYTHON_AVAILABLE e then [Call_Resolver] else [])"
    using d get_dns_servers_events [of e tr1] by simp
  obtain evs3 where t3: "tr3 = tr2 @ evs3" and d3: "list_all is_discovery evs3"
    using p get_public_ip_events [of e 3 tr2] by auto
  let ?evs = "[Call_udp_connect ''8.8.8.8'' 80]
              @ (if DNSPYTHON_AVAILABLE e then [Call_Resolver] else []) @ evs3"
  have tr3: "tr3 = tr @ ?evs" using t1 t2 t3 by simp
  have dis: "list_all is_discovery ?evs" using d3 by simp
  have "\<exists>r1 r2 r3. print_network_info e tr =
       tr3 @ [Print [], Print (''Local IP Address: '' @ r1),
              Print (''DNS Server(s): '' @ r2), Print (''Public IP Address: '' @ r3)]"
    unfolding print_network_info_def l d p prod.case
    by (simp only: append_assoc append_Cons append_Nil list.inject event.inject
        append_same_eq same_append_eq simp_thms split: if_splits)
       (auto)
  then show ?thesis using tr3 dis by (metis append_assoc)
qed

subsection \<open>Runs of main\<close>

lemma resolve_target_discovery:
  "filter is_discovery (snd (resolve_target e t tr)) = filter is_discovery tr"
  using resolve_target_events [of e t tr] by auto

lemma scapy_ping_once_discovery:
  "filter is_discovery (snd (scapy_ping_once e t timeout tr)) = filter is_discovery tr"
proof -
  let ?tr0 = "tr @ [Probe t timeout]"
  obtain r tr1 where rt: "resolve_target e t ?tr0 = (r, tr1)"
    by (cases "resolve_target e t ?tr0")
  have f1: "filter is_discovery tr1 = filter is_discovery tr"
    using resolve_target_discovery [of e t ?tr0] rt by simp
  show ?thesis
    using f1
    by (simp add: scapy_ping_once_def Let_def rt send_echo_events case_prod_beta
        split: sum.splits option.splits)
qed

lemma ping_dns_servers_discovery:
  "filter is_discovery (snd (ping_dns_servers e dns tr)) = filter is_discovery tr"
proof (induction dns arbitrary: tr)
  case Nil
  show ?case by simp
next
  case (Cons ns rest)
  obtain r tr1 where p: "scapy_ping_once e ns 1 tr = (r, tr1)"
    by (cases "scapy_ping_once e ns 1 tr")
  have f1: "filter is_discovery tr1 = filter is_discovery tr"
    using scapy_ping_once_discovery [of e ns 1 tr] p by simp
  show ?case
  proof (cases r)
    case (Inl x)
    with p f1 show ?thesis by simp
  next
    case (Inr status)
    with p f1 Cons.IH show ?thesis by simp
  qed
qed

lemma ping_user_target_discovery:
  "filter is_discovery (snd (ping_user_target e t tr)) = filter is_discovery tr"
proof -
  obtain r tr1 where rt: "resolve_target e t tr = (r, tr1)"
    by (cases "resolve_target e t tr")
  have f1: "filter is_discovery tr1 = filter is_discovery tr"
    using resolve_target_discovery [of e t tr] rt by simp
  obtain s tr2 where p: "scapy_ping_once e t 1 tr1 = (s, tr2)"
    by (cases "scapy_ping_once e t 1 tr1")
  have f2: "filter is_discovery tr2 = filter is_discovery tr1"
    using scapy_ping_once_discovery [of e t 1 tr1] p by simp
  show ?thesis
    using rt p f1 f2
    by (auto simp: ping_user_target_def split: sum.splits prod.splits)
qed

lemma ping_user_targets_discovery:
  "filter is_discovery (snd (ping_user_targets e ts tr)) = filter is_discovery tr"
proof (induction ts arbitrary: tr)
  case Nil
  show ?case by simp
next
  case (Cons t rest)
  obtain r tr1 where p: "ping_user_target e t tr = (r, tr1)"
    by (cases "ping_user_target e t tr")
  have f1: "filter is_discovery tr1 = filter is_discovery tr"
    using ping_user_target_discovery [of e t tr] p by simp
  show ?case
  proof (cases r)
    case (Inl x)
    with p f1 show ?thesis by simp
  next
    case (Inr u)
    with p f1 Cons.IH show ?thesis by simp
  qed
qed

lemma print_pings_discovery:
  "filter is_discovery (snd (print_pings e ut dns tr)) = filter is_discovery tr"
proof -
  let ?tr0 = "tr @ [Print [], Print ''Pinging ...'']"
  obtain r tr1 where d: "(if dns \<noteq> [] then ping_dns_servers e dns ?tr0
            else (Inr (), ?tr0 @ [Print ''default DNS Server <none found>: SKIPPED''])) = (r, tr1)"
    by (cases "(if dns \<noteq> [] then ping_dns_servers e dns ?tr0
            else (Inr (), ?tr0 @ [Print ''default DNS Server <none found>: SKIPPED'']))")
  have f1: "filter is_discovery tr1 = filter is_discovery tr"
    using d ping_dns_servers_discovery [of e dns ?tr0] by (auto split: if_splits)
  obtain s tr2 where p: "scapy_ping_once e ''8.8.8.8'' 1 tr1 = (s, tr2)"
    by (cases "scapy_ping_once e ''8.8.8.8'' 1 tr1")
  have f2: "filter is_discovery tr2 = filter is_discovery tr1"
    using scapy_ping_once_discovery [of e "''8.8.8.8''" 1 tr1] p by simp
  show ?thesis
  proof (cases r)
    case (Inl x)
    then show ?thesis
      unfolding print_pings_def Let_def d using f1 by simp
  next
    case r: (Inr u)
    show ?thesis
    proof (cases s)
      case (Inl x)
      then show ?thesis
        unfolding print_pings_def Let_def d using r p f1 f2 by simp
    next
      case (Inr status)
      then show ?thesis
        unfolding print_pings_def Let_def d using r p f1 f2
        by (simp add: ping_user_targets_discovery)
    qed
  qed
qed



lemma main_run:
  assumes "\<not> no_ping a"
    and "fst (get_dns_servers e (tr @ [Print [], Print WELCOME])) = dns"
    and "ts = (case ping a of None \<Rightarrow> [] | Some xs \<Rightarrow> xs)"
    and "\<forall>t\<in>set (dns @ [''8.8.8.8''] @ ts). parse_ok e t"
  shows "\<exists>ievs pevs dlines pline ulines.
           main e a tr = (Inr 0, tr @ [Print [], Print WELCOME]
                                 @ (if DNSPYTHON_AVAILABLE e then [Call_Resolver] else [])
                                 @ ievs @ pevs)
           \<and> (if quiet a then ievs = []
               else \<exists>devs r1 r2 r3. list_all is_discovery devs \<and>
                      ievs = devs @ [Print [], Print (''Local IP Address: '' @ r1),
                                     Print (''DNS Server(s): '' @ r2),
                                     Print (''Public IP Address: '' @ r3)])
           \<and> probe_targets pevs = dns @ [''8.8.8.8''] @ ts
           \<and> filter is_discovery pevs = []
           \<and> printed pevs = [[], ''Pinging ...''] @ dlines @ [pline] @ ulines
           \<and> (if dns = [] then dlines = [''default DNS Server <none found>: SKIPPED'']
               else list_all2 (\<lambda>line t. \<exists>st\<in>set statuses. line = ''default DNS Server '' @ t @ '': '' @ st)
                      dlines dns)
           \<and> (\<exists>st\<in>set statuses. pline = ''public DNS Server 8.8.8.8: '' @ st)
           \<and> list_all2 (\<lambda>line t. \<exists>st\<in>set statuses.
                  line = t @ '': '' @ st \<or> (\<exists>ip. line = t @ '' '' @ ip @ '': '' @ st))
                ulines ts"
proof -
  let ?tr0 = "tr @ [Print [], Print WELCOME]"
  let ?dev = "if DNSPYTHON_AVAILABLE e then [Call_Resolver] else []"
  let ?ut = "Some (if ping a \<noteq> None \<and> the (ping a) \<noteq> [] then the (ping a) else [])"
  obtain tr1 where g: "get_dns_servers e ?tr0 = (dns, tr1)"
    using assms(2) by (cases "get_dns_servers e ?tr0") simp
  have t1: "tr1 = ?tr0 @ ?dev"
    using g get_dns_servers_events [of e ?tr0] by simp
  define tr2 where "tr2 = (if \<not> quiet a then print_network_info e tr1 else tr1)"
  have "\<exists>ievs. tr2 = tr1 @ ievs \<and>
          (if quiet a then ievs = []
           else \<exists>devs r1 r2 r3. list_all is_discovery devs \<and>
                  ievs = devs @ [Print [], Print (''Local IP Address: '' @ r1),
                                 Print (''DNS Server(s): '' @ r2),
                                 Print (''Public IP Address: '' @ r3)])"
  proof (cases "quiet a")
    case True
    then show ?thesis by (simp add: tr2_def)
  next
    case False
    obtain devs r1 r2 r3 where
      "print_network_info e tr1 =
         tr1 @ devs @ [Print [], Print (''Local IP Address: '' @ r1),
                       Print (''DNS Server(s): '' @ r2), Print (''Public IP Address: '' @ r3)]"
      and "list_all is_discovery devs"
      using print_network_info_run [of e tr1] by blast
    with False show ?thesis unfolding tr2_def by auto
  qed
  then obtain ievs where t2: "tr2 = tr1 @ ievs"
    and iv: "if quiet a then ievs = []
             else \<exists>devs r1 r2 r3. list_all is_discovery devs \<and>
                    ievs = devs @ [Print [], Print (''Local IP Address: '' @ r1),
                                   Print (''DNS Server(s): '' @ r2),
                                   Print (''Public IP Address: '' @ r3)]"
    by blast
  have ut: "?ut = None \<and> ts = [] \<or> ?ut = Some ts"
    using assms(3) by (cases "ping a") auto
  from print_pings_run [OF assms(4) ut, of tr2]
  obtain pevs dlines pline ulines where
    pp: "print_pings e ?ut dns tr2 = (Inr (), tr2 @ pevs)"
    and 1: "probe_targets pevs = dns @ [''8.8.8.8''] @ ts"
    and 2: "printed pevs = [[], ''Pinging ...''] @ dlines @ [pline] @ ulines"
    and 3: "if dns = [] then dlines = [''default DNS Server <none found>: SKIPPED'']
            else list_all2 (\<lambda>line t. \<exists>st\<in>set statuses. line = ''default DNS Server '' @ t @ '': '' @ st)
                   dlines dns"
    and 4: "\<exists>st\<in>set statuses. pline = ''public DNS Server 8.8.8.8: '' @ st"
    and 5: "list_all2 (\<lambda>line t. \<exists>st\<in>set statuses.
                  line = t @ '': '' @ st \<or> (\<exists>ip. line = t @ '' '' @ ip @ '': '' @ st))
                ulines ts"
    by blast
  have "filter is_discovery (tr2 @ pevs) = filter is_discovery tr2"
    using print_pings_discovery [of e ?ut dns tr2] pp by simp
  then have 6: "filter is_discovery pevs = []" by simp
  have "main e a tr = (Inr 0, tr2 @ pevs)"
    using assms(1) g pp by (simp add: main_def Let_def tr2_def)
  then have m: "main e a tr = (Inr 0, tr @ [Print [], Print WELCOME] @ ?dev @ ievs @ pevs)"
    using t1 t2 by simp
  show ?thesis
    using m iv 1 2 3 4 5 6 by blast
qed

subsection \<open>The order of the probes\<close>

lemma lab_parse_ok:
  "parse_ok lab_env ''192.0.2.53''" "parse_ok lab_env ''8.8.8.8''"
  "parse_ok lab_env ''example.invalid''" "parse_ok lab_env ''localhost''"
  by (simp_all add: parse_ok_def lab_env_def lab_inet_aton_def lab_inet_pton_def)

lemma lab_dns:
  "fst (get_dns_servers lab_env tr) = [''192.0.2.53'']"
  by (simp add: get_dns_servers_def lab_env_def)

text \<open>
  Runs on targets that the literal parsers accept or reject with \<open>OSError\<close>. A run of
  \<open>main\<close> without \<open>no_ping\<close> returns 0, and \<open>scapy_ping_once\<close> is called on each DNS
  server found, in the order found, then on \<open>8.8.8.8\<close>, then on each target of the user
  in the order given. The report after the welcome (and after the four lines of network
  information, unless \<open>quiet\<close>) has one line for each of these calls, in that order; when no
  DNS server was found, one line \<open>SKIPPED\<close> stands in their place.
\<close>

lemma probe_order_on_parsable:
  assumes "\<not> no_ping a"
    and "fst (get_dns_servers e (tr @ [Print [], Print WELCOME])) = dns"
    and "ts = (case ping a of None \<Rightarrow> [] | Some xs \<Rightarrow> xs)"
    and "\<forall>t\<in>set (dns @ [''8.8.8.8''] @ ts). parse_ok e t"
  shows "\<exists>evs info dlines pline ulines.
           main e a tr = (Inr 0, tr @ evs)
           \<and> probe_targets evs = dns @ [''8.8.8.8''] @ ts
           \<and> printed evs = [[], WELCOME] @ info @ [[], ''Pinging ...''] @ dlines @ [pline] @ ulines
           \<and> length info = (if quiet a then 0 else 4)
           \<and> (if dns = [] then dlines = [''default DNS Server <none found>: SKIPPED'']
               else list_all2 (\<lambda>line t. \<exists>st\<in>set statuses. line = ''default DNS Server '' @ t @ '': '' @ st)
                      dlines dns)
           \<and> (\<exists>st\<in>set statuses. pline = ''public DNS Server 8.8.8.8: '' @ st)
           \<and> list_all2 (\<lambda>line t. \<exists>st\<in>set statuses.
                  line = t @ '': '' @ st \<or> (\<exists>ip. line = t @ '' '' @ ip @ '': '' @ st))
                ulines ts"
proof -
  let ?dev = "if DNSPYTHON_AVAILABLE e then [Call_Resolver] else []"
  from main_run [OF assms]
  obtain ievs pevs dlines pline ulines where
    m: "main e a tr = (Inr 0, tr @ [Print [], Print WELCOME] @ ?dev @ ievs @ pevs)"
    and iv: "if quiet a then ievs = []
             else \<exists>devs r1 r2 r3. list_all is_discovery devs \<and>
                    ievs = devs @ [Print [], Print (''Local IP Address: '' @ r1),
                                   Print (''DNS Server(s): '' @ r2),
                                   Print (''Public IP Address: '' @ r3)]"
    and 1: "probe_targets pevs = dns @ [''8.8.8.8''] @ ts"
    and 2: "printed pevs = [[], ''Pinging ...''] @ dlines @ [pline] @ ulines"
    and 3: "if dns = [] then dlines = [''default DNS Server <none found>: SKIPPED'']
            else list_all2 (\<lambda>line t. \<exists>st\<in>set statuses. line = ''default DNS Server '' @ t @ '': '' @ st)
                   dlines dns"
    and 4: "\<exists>st\<in>set statuses. pline = ''public DNS Server 8.8.8.8: '' @ st"
    and 5: "list_all2 (\<lambda>line t. \<exists>st\<in>set statuses.
                  line = t @ '': '' @ st \<or> (\<exists>ip. line = t @ '' '' @ ip @ '': '' @ st))
                ulines ts"
    by blast
  have iq: "probe_targets ievs = [] \<and> length (printed ievs) = (if quiet a then 0 else 4)"
  proof (cases "quiet a")
    case True
    with iv show ?thesis by (simp add: probe_targets_def printed_def)
  next
    case False
    with iv obtain devs r1 r2 r3 where d: "list_all is_discovery devs"
      and i: "ievs = devs @ [Print [], Print (''Local IP Address: '' @ r1),
                             Print (''DNS Server(s): '' @ r2),
                             Print (''Public IP Address: '' @ r3)]"
      by auto
    have "probe_targets devs = []" "printed devs = []"
      using discovery_silent [OF d] by simp_all
    with False i show ?thesis
      by (simp add: probe_targets_append printed_append) (simp add: probe_targets_def printed_def)
  qed
  let ?new = "[Print [], Print WELCOME] @ ?dev @ ievs @ pevs"
  have dv: "probe_targets ?dev = []" "printed ?dev = []"
    by (simp_all add: probe_targets_def printed_def)
  have a: "probe_targets ?new = dns @ [''8.8.8.8''] @ ts"
    using 1 iq dv by (simp add: probe_targets_append) (simp add: probe_targets_def)
  have b: "printed ?new = [[], WELCOME] @ printed ievs @ [[], ''Pinging ...''] @ dlines @ [pline] @ ulines"
    using 2 dv by (simp add: printed_append) (simp add: printed_def)
  show ?thesis
    using m a b iq 3 4 5
    by (intro exI [of _ ?new] exI [of _ "printed ievs"] exI [of _ dlines] exI [of _ pline]
        exI [of _ ulines]) simp
qed

lemma lab_scenario_report:
  "printed (snd (main lab_env \<lparr>no_ping = False, quiet = False, ping = Some [''example.invalid'']\<rparr> []))
     = [[], WELCOME, [], ''Local IP Address: 10.0.0.5'', ''DNS Server(s): 192.0.2.53'',
        ''Public IP Address: 203.0.113.7'', [], ''Pinging ...'',
        ''default DNS Server 192.0.2.53: FAILED'', ''public DNS Server 8.8.8.8: OK'',
        ''example.invalid: RESOLVE_FAIL'']"
  by code_simp

text \<open>
  The same for \<open>print_pings\<close> on an empty list of DNS servers: one line \<open>SKIPPED\<close>, then
  \<open>8.8.8.8\<close>, then every target of the user.
\<close>

lemma empty_dns_list_on_parsable:
  assumes "\<forall>t\<in>set (''8.8.8.8'' # ts). parse_ok e t"
  shows "\<exists>evs pline ulines.
           print_pings e (Some ts) [] tr = (Inr (), tr @ evs)
           \<and> probe_targets evs = ''8.8.8.8'' # ts
           \<and> printed evs = [[], ''Pinging ...'', ''default DNS Server <none found>: SKIPPED'', pline]
                           @ ulines
           \<and> (\<exists>st\<in>set statuses. pline = ''public DNS Server 8.8.8.8: '' @ st)
           \<and> list_all2 (\<lambda>line t. \<exists>st\<in>set statuses.
                  line = t @ '': '' @ st \<or> (\<exists>ip. line = t @ '' '' @ ip @ '': '' @ st))
                ulines ts"
proof -
  have a: "\<forall>t\<in>set ([] @ [''8.8.8.8''] @ ts). parse_ok e t"
    using assms by simp
  have ut: "Some ts = None \<and> ts = [] \<or> Some ts = Some ts"
    by simp
  from print_pings_run [OF a ut, of tr]
  obtain evs dlines pline ulines where
    pp: "print_pings e (Some ts) [] tr = (Inr (), tr @ evs)"
    and 1: "probe_targets evs = [] @ [''8.8.8.8''] @ ts"
    and 2: "printed evs = [[], ''Pinging ...''] @ dlines @ [pline] @ ulines"
    and 3: "if ([]::string list) = [] then dlines = [''default DNS Server <none found>: SKIPPED'']
            else list_all2 (\<lambda>line t. \<exists>st\<in>set statuses. line = ''default DNS Server '' @ t @ '': '' @ st)
                   dlines []"
    and 4: "\<exists>st\<in>set statuses. pline = ''public DNS Server 8.8.8.8: '' @ st"
    and 5: "list_all2 (\<lambda>line t. \<exists>st\<in>set statuses.
                  line = t @ '': '' @ st \<or> (\<exists>ip. line = t @ '' '' @ ip @ '': '' @ st))
                ulines ts"
    by blast
  from 3 have d: "dlines = [''default DNS Server <none found>: SKIPPED'']" by simp
  have pt: "probe_targets evs = ''8.8.8.8'' # ts" using 1 by simp
  have pr: "printed evs = [[], ''Pinging ...'', ''default DNS Server <none found>: SKIPPED'', pline]
                           @ ulines"
    using 2 d by simp
  show ?thesis using pp pt pr 4 5 by blast
qed

text \<open>
  C3. The calls of \<open>scapy_ping_once\<close> and the report lines come in the order: the DNS
  servers found, then \<open>8.8.8.8\<close>, then the targets of the user, and none is left out, as
  long as no target raises (lemma \<open>probe_order_on_parsable\<close>). But the loop over the
  targets of the user calls \<open>_resolve_target\<close> outside any \<open>try\<close>: on a target that holds
  a NUL character the \<open>ValueError\<close> of the parser leaves \<open>print_pings\<close> and \<open>main\<close>, and the
  targets after it are neither probed nor reported. Here \<open>localhost\<close> is never reached.
\<close>

theorem probe_order_cut_short:
  "main lab_env \<lparr>no_ping = False, quiet = True,
                  ping = Some [[CHR ''a'', CHR 0x00], ''localhost'']\<rparr> []
     = (Inl (OtherException ''ValueError: embedded null character''),
        [Print [], Print WELCOME, Call_Resolver, Print [], Print ''Pinging ...'',
         Probe ''192.0.2.53'' 1, Call_sr1 (IP_ICMP ''192.0.2.53'') 1,
         Print ''default DNS Server 192.0.2.53: FAILED'',
         Probe ''8.8.8.8'' 1, Call_sr1 (IP_ICMP ''8.8.8.8'') 1,
         Print ''public DNS Server 8.8.8.8: OK''])"
  by code_simp

text \<open>
  C10. With no DNS server found, \<open>print_pings\<close> prints one line \<open>SKIPPED\<close> and goes on to
  \<open>8.8.8.8\<close> and to the targets of the user (lemma \<open>empty_dns_list_on_parsable\<close>). But not
  every target of the user is resolved and probed: the exception of the first target
  ends the report, and \<open>localhost\<close> is neither resolved nor probed.
\<close>

theorem empty_dns_list_cut_short:
  "print_pings lab_env (Some [[CHR ''a'', CHR 0x00], ''localhost'']) [] []
     = (Inl (OtherException ''ValueError: embedded null character''),
        [Print [], Print ''Pinging ...'', Print ''default DNS Server <none found>: SKIPPED'',
         Probe ''8.8.8.8'' 1, Call_sr1 (IP_ICMP ''8.8.8.8'') 1,
         Print ''public DNS Server 8.8.8.8: OK''])"
  by code_simp

subsection \<open>What does not depend on the history\<close>

lemma resolve_target_raise_indep:
  "(fst (resolve_target e t tr) = Inl x) = (fst (resolve_target e t tr') = Inl x)"
  by (simp add: resolve_target_def split: option.splits sum.splits)



lemma resolve_target_probes:
  "probe_targets (snd (resolve_target e t tr)) = probe_targets tr"
  using resolve_target_events [of e t tr] by (auto simp: probe_targets_def)

lemma scapy_ping_once_grows:
  "\<exists>evs. snd (scapy_ping_once e t timeout tr) = tr @ Probe t timeout # evs
         \<and> list_all is_lookup evs"
proof -
  let ?tr0 = "tr @ [Probe t timeout]"
  obtain r tr1 where rt: "resolve_target e t ?tr0 = (r, tr1)"
    by (cases "resolve_target e t ?tr0")
  obtain evs where "tr1 = ?tr0 @ evs" and evs: "evs = [] \<or> evs = [Call_gethostbyname t]"
    using resolve_target_events [of e t ?tr0] rt by auto
  then have rt': "resolve_target e t ?tr0 = (r, tr @ Probe t timeout # evs)"
    using rt by simp
  from evs have l: "list_all is_lookup evs" by auto
  show ?thesis
    using l
    by (auto simp: scapy_ping_once_def Let_def rt' send_echo_events case_prod_beta
        split: sum.splits option.splits)
qed

lemma scapy_ping_once_probes:
  "probe_targets (snd (scapy_ping_once e t timeout tr)) = probe_targets tr @ [t]"
proof -
  obtain evs where s: "snd (scapy_ping_once e t timeout tr) = tr @ Probe t timeout # evs"
    and l: "list_all is_lookup evs"
    using scapy_ping_once_grows by blast
  have "probe_targets evs = []" using lookups_silent [OF l] by simp
  then show ?thesis
    unfolding s by (simp add: probe_targets_append) (simp add: probe_targets_def)
qed

lemma scapy_ping_once_raise_indep:
  "(fst (scapy_ping_once e t timeout tr) = Inl x)
     = (fst (scapy_ping_once e t timeout tr') = Inl x)"
proof -
  have "\<And>h. (fst (scapy_ping_once e t timeout h) = Inl x)
          = (SCAPY_AVAILABLE e \<and> fst (resolve_target e t (h @ [Probe t timeout])) = Inl x)"
    by (simp add: scapy_ping_once_def Let_def case_prod_beta split: sum.splits option.splits)
  then show ?thesis
    using resolve_target_raise_indep [of e t "tr @ [Probe t timeout]" x "tr' @ [Probe t timeout]"]
    by simp
qed

lemma ping_dns_servers_grows:
  "\<exists>evs. snd (ping_dns_servers e dns tr) = tr @ evs"
proof (induction dns arbitrary: tr)
  case Nil
  show ?case by simp
next
  case (Cons ns rest)
  obtain r tr1 where p: "scapy_ping_once e ns 1 tr = (r, tr1)"
    by (cases "scapy_ping_once e ns 1 tr")
  obtain evs where g: "tr1 = tr @ Probe ns 1 # evs"
    using scapy_ping_once_grows [of e ns 1 tr] p by auto
  show ?case
  proof (cases r)
    case (Inl x)
    with p g show ?thesis by simp
  next
    case (Inr st)
    obtain evs' where
      "snd (ping_dns_servers e rest (tr1 @ [Print (''default DNS Server '' @ ns @ '': '' @ st)]))
         = (tr1 @ [Print (''default DNS Server '' @ ns @ '': '' @ st)]) @ evs'"
      using Cons.IH by blast
    with Inr p g show ?thesis by simp
  qed
qed

lemma ping_user_target_grows:
  "\<exists>evs. snd (ping_user_target e t tr) = tr @ evs"
proof -
  obtain r tr1 where rt: "resolve_target e t tr = (r, tr1)"
    by (cases "resolve_target e t tr")
  obtain evs1 where g1: "tr1 = tr @ evs1"
    using resolve_target_events [of e t tr] rt by auto
  obtain r2 tr2 where p: "scapy_ping_once e t 1 tr1 = (r2, tr2)"
    by (cases "scapy_ping_once e t 1 tr1")
  obtain evs2 where g2: "tr2 = tr1 @ Probe t 1 # evs2"
    using scapy_ping_once_grows [of e t 1 tr1] p by auto
  show ?thesis
    using rt p g1 g2
    by (cases r; cases r2) (auto simp: ping_user_target_def)
qed

lemma ping_user_targets_grows:
  "\<exists>evs. snd (ping_user_targets e ts tr) = tr @ evs"
proof (induction ts arbitrary: tr)
  case Nil
  show ?case by simp
next
  case (Cons t rest)
  obtain r tr1 where p: "ping_user_target e t tr = (r, tr1)"
    by (cases "ping_user_target e t tr")
  obtain evs where g: "tr1 = tr @ evs"
    using ping_user_target_grows [of e t tr] p by auto
  show ?case
  proof (cases r)
    case (Inl x)
    with p g show ?thesis by simp
  next
    case (Inr u)
    obtain evs' where "snd (ping_user_targets e rest tr1) = tr1 @ evs'"
      using Cons.IH by blast
    with Inr p g show ?thesis by simp
  qed
qed

lemma print_pings_grows:
  "\<exists>evs. snd (print_pings e ut dns tr) = tr @ Print [] # Print ''Pinging ...'' # evs"
proof -
  let ?tr0 = "tr @ [Print [], Print ''Pinging ...'']"
  let ?d = "if dns \<noteq> [] then ping_dns_servers e dns ?tr0
            else (Inr (), ?tr0 @ [Print ''default DNS Server <none found>: SKIPPED''])"
  obtain r1 tr1 where d: "?d = (r1, tr1)" by (cases ?d)
  obtain evs1 where g1: "tr1 = ?tr0 @ evs1"
    using d ping_dns_servers_grows [of e dns ?tr0] by (auto split: if_splits)
  obtain r2 tr2 where p: "scapy_ping_once e ''8.8.8.8'' 1 tr1 = (r2, tr2)"
    by (cases "scapy_ping_once e ''8.8.8.8'' 1 tr1")
  obtain evs2 where g2: "tr2 = tr1 @ evs2"
    using scapy_ping_once_grows [of e "''8.8.8.8''" 1 tr1] p by auto
  show ?thesis
  proof (cases r1)
    case (Inl x)
    then show ?thesis
      unfolding print_pings_def Let_def d using g1 by simp
  next
    case u: (Inr u)
    show ?thesis
    proof (cases r2)
      case (Inl x)
      then show ?thesis
        unfolding print_pings_def Let_def d using u p g1 g2 by simp
    next
      case (Inr st)
      let ?tr3 = "tr2 @ [Print (''public DNS Server '' @ ''8.8.8.8'' @ '': '' @ st)]"
      obtain evs3 where "snd (ping_user_targets e (the ut) ?tr3) = ?tr3 @ evs3"
        using ping_user_targets_grows by blast
      then show ?thesis
        unfolding print_pings_def Let_def d using u Inr p g1 g2 by simp
    qed
  qed
qed

lemma ping_dns_servers_indep:
  assumes "probe_targets tr = probe_targets tr'"
  shows "fst (ping_dns_servers e dns tr) = fst (ping_dns_servers e dns tr')
         \<and> probe_targets (snd (ping_dns_servers e dns tr))
             = probe_targets (snd (ping_dns_servers e dns tr'))"
  using assms
proof (induction dns arbitrary: tr tr')
  case Nil
  then show ?case by simp
next
  case (Cons ns rest)
  obtain r tr1 where p: "scapy_ping_once e ns 1 tr = (r, tr1)"
    by (cases "scapy_ping_once e ns 1 tr")
  obtain r' tr1' where p': "scapy_ping_once e ns 1 tr' = (r', tr1')"
    by (cases "scapy_ping_once e ns 1 tr'")
  have pt: "probe_targets tr1 = probe_targets tr1'"
    using scapy_ping_once_probes [of e ns 1 tr] scapy_ping_once_probes [of e ns 1 tr']
      p p' Cons.prems by simp
  have ri: "\<And>x. (r = Inl x) = (r' = Inl x)"
    using scapy_ping_once_raise_indep [of e ns 1 tr _ tr'] p p' by simp
  show ?case
  proof (cases r)
    case (Inl x)
    from Inl ri [of x] have "r' = Inl x" by simp
    with Inl p p' pt show ?thesis by simp
  next
    case (Inr st)
    with ri [of "projl r'"] obtain st' where r': "r' = Inr st'" by (cases r') auto
    have "probe_targets (tr1 @ [Print (''default DNS Server '' @ ns @ '': '' @ st)])
          = probe_targets (tr1' @ [Print (''default DNS Server '' @ ns @ '': '' @ st')])"
      using pt by (simp add: probe_targets_append) (simp add: probe_targets_def)
    from Cons.IH [OF this] Inr r' p p' show ?thesis by simp
  qed
qed

lemma ping_user_target_indep:
  assumes "probe_targets tr = probe_targets tr'"
  shows "fst (ping_user_target e t tr) = fst (ping_user_target e t tr')
         \<and> probe_targets (snd (ping_user_target e t tr))
             = probe_targets (snd (ping_user_target e t tr'))"
proof -
  obtain r tr1 where rt: "resolve_target e t tr = (r, tr1)"
    by (cases "resolve_target e t tr")
  obtain r' tr1' where rt': "resolve_target e t tr' = (r', tr1')"
    by (cases "resolve_target e t tr'")
  have pt1: "probe_targets tr1 = probe_targets tr1'"
    using resolve_target_probes [of e t tr] resolve_target_probes [of e t tr'] rt rt' assms
    by simp
  have ri1: "\<And>x. (r = Inl x) = (r' = Inl x)"
    using resolve_target_raise_indep [of e t tr _ tr'] rt rt' by simp
  obtain r2 tr2 where p: "scapy_ping_once e t 1 tr1 = (r2, tr2)"
    by (cases "scapy_ping_once e t 1 tr1")
  obtain r2' tr2' where p': "scapy_ping_once e t 1 tr1' = (r2', tr2')"
    by (cases "scapy_ping_once e t 1 tr1'")
  have pt2: "probe_targets tr2 = probe_targets tr2'"
    using scapy_ping_once_probes [of e t 1 tr1] scapy_ping_once_probes [of e t 1 tr1']
      p p' pt1 by simp
  have ri2: "\<And>x. (r2 = Inl x) = (r2' = Inl x)"
    using scapy_ping_once_raise_indep [of e t 1 tr1 _ tr1'] p p' by simp
  show ?thesis
  proof (cases r)
    case (Inl x)
    from Inl ri1 [of x] have "r' = Inl x" by simp
    with Inl rt rt' pt1 show ?thesis by (simp add: ping_user_target_def)
  next
    case (Inr v)
    with ri1 [of "projl r'"] obtain v' where r': "r' = Inr v'" by (cases r') auto
    show ?thesis
    proof (cases r2)
      case (Inl x)
      from Inl ri2 [of x] have "r2' = Inl x" by simp
      with Inl Inr r' rt rt' p p' pt2 show ?thesis
        by (simp add: ping_user_target_def case_prod_beta)
    next
      case st: (Inr st)
      with ri2 [of "projl r2'"] obtain st' where r2': "r2' = Inr st'" by (cases r2') auto
      have "\<And>l l'. probe_targets (tr2 @ [Print l]) = probe_targets (tr2' @ [Print l'])"
        using pt2 by (simp add: probe_targets_append) (simp add: probe_targets_def)
      with st r2' Inr r' rt rt' p p' show ?thesis
        by (simp add: ping_user_target_def case_prod_beta)
    qed
  qed
qed

lemma ping_user_targets_indep:
  assumes "probe_targets tr = probe_targets tr'"
  shows "fst (ping_user_targets e ts tr) = fst (ping_user_targets e ts tr')
         \<and> probe_targets (snd (ping_user_targets e ts tr))
             = probe_targets (snd (ping_user_targets e ts tr'))"
  using assms
proof (induction ts arbitrary: tr tr')
  case Nil
  then show ?case by simp
next
  case (Cons t rest)
  obtain r tr1 where p: "ping_user_target e t tr = (r, tr1)"
    by (cases "ping_user_target e t tr")
  obtain r' tr1' where p': "ping_user_target e t tr' = (r', tr1')"
    by (cases "ping_user_target e t tr'")
  from ping_user_target_indep [OF Cons.prems, of e t] p p'
  have rr: "r' = r" and pt: "probe_targets tr1 = probe_targets tr1'" by simp_all
  note q = p' [unfolded rr]
  show ?case
  proof (cases r)
    case (Inl x)
    with p q pt show ?thesis by simp
  next
    case (Inr u)
    from Cons.IH [OF pt] Inr p q show ?thesis by simp
  qed
qed

lemma print_pings_indep:
  assumes "probe_targets tr = probe_targets tr'"
  shows "fst (print_pings e ut dns tr) = fst (print_pings e ut dns tr')
         \<and> probe_targets (snd (print_pings e ut dns tr))
             = probe_targets (snd (print_pings e ut dns tr'))"
proof -
  let ?tr0 = "tr @ [Print [], Print ''Pinging ...'']"
  let ?tr0' = "tr' @ [Print [], Print ''Pinging ...'']"
  let ?d = "if dns \<noteq> [] then ping_dns_servers e dns ?tr0
            else (Inr (), ?tr0 @ [Print ''default DNS Server <none found>: SKIPPED''])"
  let ?d' = "if dns \<noteq> [] then ping_dns_servers e dns ?tr0'
            else (Inr (), ?tr0' @ [Print ''default DNS Server <none found>: SKIPPED''])"
  have p0: "probe_targets ?tr0 = probe_targets ?tr0'"
    using assms by (simp add: probe_targets_append)
  obtain r1 tr1 where d: "?d = (r1, tr1)" by (cases ?d)
  obtain r1' tr1' where d': "?d' = (r1', tr1')" by (cases ?d')
  have rr1: "r1' = r1" and pt1: "probe_targets tr1 = probe_targets tr1'"
  proof -
    show "r1' = r1"
      using d d' ping_dns_servers_indep [OF p0, of e dns] by (auto split: if_splits)
    show "probe_targets tr1 = probe_targets tr1'"
    proof (cases "dns = []")
      case True
      with d d' p0 show ?thesis
        by (auto simp: probe_targets_append)
    next
      case False
      with d d' ping_dns_servers_indep [OF p0, of e dns] show ?thesis by simp
    qed
  qed
  note d'' = d' [unfolded rr1]
  obtain r2 tr2 where p: "scapy_ping_once e ''8.8.8.8'' 1 tr1 = (r2, tr2)"
    by (cases "scapy_ping_once e ''8.8.8.8'' 1 tr1")
  obtain r2' tr2' where p': "scapy_ping_once e ''8.8.8.8'' 1 tr1' = (r2', tr2')"
    by (cases "scapy_ping_once e ''8.8.8.8'' 1 tr1'")
  have pt2: "probe_targets tr2 = probe_targets tr2'"
    using scapy_ping_once_probes [of e "''8.8.8.8''" 1 tr1]
      scapy_ping_once_probes [of e "''8.8.8.8''" 1 tr1'] p p' pt1 by simp
  have ri2: "\<And>x. (r2 = Inl x) = (r2' = Inl x)"
    using scapy_ping_once_raise_indep [of e "''8.8.8.8''" 1 tr1 _ tr1'] p p' by simp
  show ?thesis
  proof (cases r1)
    case (Inl x)
    with pt1 show ?thesis
      unfolding print_pings_def Let_def d d'' by simp
  next
    case u: (Inr u)
    show ?thesis
    proof (cases r2)
      case (Inl x)
      from Inl ri2 [of x] have "r2' = Inl x" by simp
      with Inl u pt2 p p' show ?thesis
        unfolding print_pings_def Let_def d d'' by simp
    next
      case (Inr st)
      with ri2 [of "projl r2'"] obtain st' where r2': "r2' = Inr st'" by (cases r2') auto
      let ?tr3 = "tr2 @ [Print (''public DNS Server '' @ ''8.8.8.8'' @ '': '' @ st)]"
      let ?tr3' = "tr2' @ [Print (''public DNS Server '' @ ''8.8.8.8'' @ '': '' @ st')]"
      have pt3: "probe_targets ?tr3 = probe_targets ?tr3'"
        using pt2 by (simp add: probe_targets_append) (simp add: probe_targets_def)
      from ping_user_targets_indep [OF pt3, of e "the ut"] pt3 Inr r2' u p p'
      show ?thesis
        unfolding print_pings_def Let_def d d'' by simp
    qed
  qed
qed

subsection \<open>Quiet runs\<close>

theorem quiet_run_discovers_dns_only:
  "filter is_discovery
     (snd (main lab_env \<lparr>no_ping = False, quiet = True, ping = None\<rparr> [])) = [Call_Resolver]
   \<and> filter is_discovery
       (snd (main lab_env \<lparr>no_ping = False, quiet = False, ping = None\<rparr> []))
     = [Call_Resolver, Call_udp_connect ''8.8.8.8'' 80, Call_Resolver,
        Call_requests_get ''https://api.ipify.org?format=json'' 3,
        Call_requests_get ''https://api64.ipify.org?format=json'' 3]"
  by code_simp

text \<open>
  C2 (amended). A run of \<open>main\<close> with \<open>quiet\<close> and without \<open>no_ping\<close> asks for the DNS
  servers, once, and for nothing else: neither the local nor the public address is
  determined. After the welcome the report goes straight to the pings. The run ends as
  the run without \<open>quiet\<close> does, and \<open>scapy_ping_once\<close> is called on the same targets in
  the same order.
\<close>

theorem quiet_run:
  assumes "\<not> no_ping a" and "quiet a"
  shows "\<exists>evs rest.
           snd (main e a tr) = tr @ evs
           \<and> filter is_discovery evs = (if DNSPYTHON_AVAILABLE e then [Call_Resolver] else [])
           \<and> printed evs = [[], WELCOME, [], ''Pinging ...''] @ rest
           \<and> fst (main e (a\<lparr>quiet := False\<rparr>) tr) = fst (main e a tr)
           \<and> probe_targets (snd (main e (a\<lparr>quiet := False\<rparr>) tr))
               = probe_targets (snd (main e a tr))"
proof -
  let ?tr0 = "tr @ [Print [], Print WELCOME]"
  let ?dev = "if DNSPYTHON_AVAILABLE e then [Call_Resolver] else []"
  define ut where
    "ut = Some (if ping a \<noteq> None \<and> the (ping a) \<noteq> [] then the (ping a) else [])"
  obtain dns tr1 where g: "get_dns_servers e ?tr0 = (dns, tr1)"
    by (cases "get_dns_servers e ?tr0")
  have t1: "tr1 = ?tr0 @ ?dev"
    using g get_dns_servers_events [of e ?tr0] by simp
  obtain devs r1 r2 r3 where
    pn: "print_network_info e tr1 =
           tr1 @ devs @ [Print [], Print (''Local IP Address: '' @ r1),
                         Print (''DNS Server(s): '' @ r2), Print (''Public IP Address: '' @ r3)]"
    and dd: "list_all is_discovery devs"
    using print_network_info_run [of e tr1] by blast
  have "probe_targets devs = []"
    using discovery_silent [OF dd] by simp
  then have pt: "probe_targets (print_network_info e tr1) = probe_targets tr1"
    unfolding pn by (simp add: probe_targets_append) (simp add: probe_targets_def)
  obtain r trq where pq: "print_pings e ut dns tr1 = (r, trq)"
    by (cases "print_pings e ut dns tr1")
  obtain r' trn where pn': "print_pings e ut dns (print_network_info e tr1) = (r', trn)"
    by (cases "print_pings e ut dns (print_network_info e tr1)")
  from print_pings_indep [OF pt, of e ut dns] pq pn'
  have rr: "r' = r" and pp: "probe_targets trn = probe_targets trq" by simp_all
  have sel: "no_ping (a\<lparr>quiet := False\<rparr>) = no_ping a" "quiet (a\<lparr>quiet := False\<rparr>) = False"
    "ping (a\<lparr>quiet := False\<rparr>) = ping a"
    by simp_all
  have mq: "main e a tr = (case r of Inl x \<Rightarrow> Inl x | Inr u \<Rightarrow> Inr 0, trq)"
    unfolding main_def Let_def g prod.case ut_def [symmetric]
    using assms pq by (simp split: sum.splits)
  have mn: "main e (a\<lparr>quiet := False\<rparr>) tr = (case r of Inl x \<Rightarrow> Inl x | Inr u \<Rightarrow> Inr 0, trn)"
    unfolding main_def Let_def sel g prod.case ut_def [symmetric]
    using assms(1) pn' [unfolded rr] by (simp split: sum.splits)
  obtain pevs where gr: "trq = tr1 @ Print [] # Print ''Pinging ...'' # pevs"
    using print_pings_grows [of e ut dns tr1] pq by auto
  have "filter is_discovery trq = filter is_discovery tr1"
    using print_pings_discovery [of e ut dns tr1] pq by simp
  then have fd: "filter is_discovery pevs = []"
    unfolding gr by simp
  let ?evs = "[Print [], Print WELCOME] @ ?dev @ Print [] # Print ''Pinging ...'' # pevs"
  have 1: "snd (main e a tr) = tr @ ?evs"
    using mq gr t1 by simp
  have 2: "filter is_discovery ?evs = ?dev"
    using fd by simp
  have 3: "printed ?evs = [[], WELCOME, [], ''Pinging ...''] @ printed pevs"
    by (simp add: printed_def)
  have 4: "fst (main e (a\<lparr>quiet := False\<rparr>) tr) = fst (main e a tr)"
    using mq mn by simp
  have 5: "probe_targets (snd (main e (a\<lparr>quiet := False\<rparr>) tr))
             = probe_targets (snd (main e a tr))"
    using mq mn pp by simp
  show ?thesis
    using 1 2 3 4 5 by (intro exI [of _ ?evs] exI [of _ "printed pevs"]) simp
qed

theorem quiet_run_witness:
  "\<not> no_ping \<lparr>no_ping = False, quiet = True, ping = Some [''example.invalid'']\<rparr>
   \<and> quiet \<lparr>no_ping = False, quiet = True, ping = Some [''example.invalid'']\<rparr>
   \<and> (\<exists>evs rest.
         snd (main lab_env \<lparr>no_ping = False, quiet = True, ping = Some [''example.invalid'']\<rparr> [])
           = [] @ evs
         \<and> filter is_discovery evs = [Call_Resolver]
         \<and> printed evs = [[], WELCOME, [], ''Pinging ...''] @ rest
         \<and> fst (main lab_env (\<lparr>no_ping = False, quiet = True, ping = Some [''example.invalid'']\<rparr>
                               \<lparr>quiet := False\<rparr>) [])
             = fst (main lab_env
                      \<lparr>no_ping = False, quiet = True, ping = Some [''example.invalid'']\<rparr> [])
         \<and> probe_targets
             (snd (main lab_env (\<lparr>no_ping = False, quiet = True, ping = Some [''example.invalid'']\<rparr>
                                 \<lparr>quiet := False\<rparr>) []))
             = probe_targets
                 (snd (main lab_env
                         \<lparr>no_ping = False, quiet = True, ping = Some [''example.invalid'']\<rparr> [])))"
proof -
  have h1: "\<not> no_ping \<lparr>no_ping = False, quiet = True, ping = Some [''example.invalid'']\<rparr>"
    by simp
  have h2: "quiet \<lparr>no_ping = False, quiet = True, ping = Some [''example.invalid'']\<rparr>"
    by simp
  have d: "DNSPYTHON_AVAILABLE lab_env"
    by (simp add: lab_env_def)
  from quiet_run [OF h1 h2, of lab_env "[]"] d h1 h2 show ?thesis
    by simp
qed

subsection \<open>The targets of the user\<close>







end
